theory Spec2Isabelle
  imports Complex_Main "HOL-Library.Monad_Syntax" "HOL-Library.Log_Nat"
begin

section \<open>Engine value types\<close>

text \<open>
  The sources are two translation units of an Unreal Engine plugin:
  the grabbable component (grab pointer bookkeeping) and the pressable button actor
  (pulse and focus animation). Both compute with the engine's value types. A C++
  \<open>float\<close> is the real number it denotes; infinities and NaN have no value here, so an
  operation that produces one (a division by zero) is an error of the model. The focus
  animation runs over many frames and what it reaches depends on rounding: it computes
  with the float32 operations below, each rounding its exact result to the nearest
  float32. The other functions are written with the exact operations. A C++ pointer is
  an \<open>option\<close>: \<open>None\<close> is \<open>nullptr\<close>, \<open>Some a\<close> is the object at address \<open>a\<close>.
\<close>

datatype FVector = FVector (X: real) (Y: real) (Z: real)

datatype FRotator = FRotator (Pitch: real) (Yaw: real) (Roll: real)

datatype FQuat = FQuat (QX: real) (QY: real) (QZ: real) (QW: real)

record FTransform =
  Rotation :: FQuat
  Translation :: FVector
  Scale3D :: FVector

text \<open>The engine's constants \<open>FVector::ZeroVector\<close>, \<open>FRotator::ZeroRotator\<close> and
  \<open>FTransform::Identity\<close> (identity rotation, zero translation, unit scale).\<close>

definition ZeroVector :: FVector where
  "ZeroVector = FVector 0 0 0"

definition ZeroRotator :: FRotator where
  "ZeroRotator = FRotator 0 0 0"

definition FTransform_Identity :: FTransform where
  "FTransform_Identity =
     \<lparr>Rotation = FQuat 0 0 0 1, Translation = FVector 0 0 0, Scale3D = FVector 1 1 1\<rparr>"

text \<open>\<open>FVector\<close>'s componentwise operators: \<open>+\<close>, \<open>-\<close>, \<open>* float\<close>, \<open>/= float\<close>, and \<open>!=\<close>
  (exact comparison of the components, which is inequality of the values). The engine's
  \<open>/=\<close> multiplies each component by \<open>1.f / V\<close>: for a divisor 0 that is infinite and the
  components become infinite or NaN, which is \<open>None\<close> here.\<close>

instantiation FVector :: "{plus, minus}"
begin

definition plus_FVector :: "FVector \<Rightarrow> FVector \<Rightarrow> FVector" where
  "plus_FVector a b = FVector (X a + X b) (Y a + Y b) (Z a + Z b)"

definition minus_FVector :: "FVector \<Rightarrow> FVector \<Rightarrow> FVector" where
  "minus_FVector a b = FVector (X a - X b) (Y a - Y b) (Z a - Z b)"

instance ..

end

definition scale_FVector :: "FVector \<Rightarrow> real \<Rightarrow> FVector" where
  "scale_FVector v s = FVector (X v * s) (Y v * s) (Z v * s)"

definition div_FVector :: "FVector \<Rightarrow> real \<Rightarrow> FVector option" where
  "div_FVector v s =
     (if s = 0 then None else Some (FVector (X v / s) (Y v / s) (Z v / s)))"

subsection \<open>float32 arithmetic\<close>

text \<open>
  IEEE 754 binary32 with the default rounding, on the reals that finite floats denote.
  Every operation is rounded on its own (no fused multiply-add).
  A float32 is a multiple of its unit in the last place, \<open>2 ^ (e - 23)\<close>, where \<open>e\<close> is the
  exponent of its binade \<open>[2 ^ e, 2 ^ (e + 1))\<close> and \<open>e\<close> is \<open>-126\<close> for everything below
  \<open>2 ^ -125\<close> (the subnormal numbers and the first binade of normal ones). \<open>round32\<close>
  rounds a real to the nearest such multiple, a tie to the even one. An operation on
  floats is the exact operation followed by \<open>round32\<close>. Results beyond the largest
  float32 (infinities) are outside the model.
\<close>

definition pow2 :: "int \<Rightarrow> real" where
  "pow2 e = (if 0 \<le> e then 2 ^ nat e else 1 / 2 ^ nat (- e))"

definition round_half_even :: "real \<Rightarrow> int" where
  "round_half_even x =
     (let f = \<lfloor>x\<rfloor>; r = x - of_int f
      in if r < 1 / 2 then f else if 1 / 2 < r then f + 1 else if even f then f else f + 1)"

definition float32_exponent :: "real \<Rightarrow> int" where
  "float32_exponent x = max (- 126) (bitlen \<lfloor>\<bar>x\<bar> * 2 ^ 149\<rfloor> - 150)"

definition round32 :: "real \<Rightarrow> real" where
  "round32 x =
     (let ulp = pow2 (float32_exponent x - 23)
      in ulp * of_int (round_half_even (x / ulp)))"

definition is_float32 :: "real \<Rightarrow> bool" where
  "is_float32 x = (round32 x = x)"

definition fadd32 :: "real \<Rightarrow> real \<Rightarrow> real" where
  "fadd32 a b = round32 (a + b)"

definition fmul32 :: "real \<Rightarrow> real \<Rightarrow> real" where
  "fmul32 a b = round32 (a * b)"

definition round_FVector :: "FVector \<Rightarrow> FVector" where
  "round_FVector v = FVector (round32 (X v)) (round32 (Y v)) (round32 (Z v))"

definition fadd_FVector :: "FVector \<Rightarrow> FVector \<Rightarrow> FVector" where
  "fadd_FVector a b = round_FVector (a + b)"

definition fsub_FVector :: "FVector \<Rightarrow> FVector \<Rightarrow> FVector" where
  "fsub_FVector a b = round_FVector (a - b)"

definition fscale_FVector :: "FVector \<Rightarrow> real \<Rightarrow> FVector" where
  "fscale_FVector v s = round_FVector (scale_FVector v s)"

text \<open>
  The transform and rotation algebra of the engine (\<open>FTransform::TransformPosition\<close>,
  \<open>FTransform::TransformRotation\<close>, \<open>FTransform::operator*\<close>, \<open>FTransform::Inverse\<close>,
  \<open>FQuat::Rotator\<close>, the constructor \<open>FQuat(FRotator)\<close>, \<open>FRotator::GetInverse\<close> and
  \<open>FQuat::operator*\<close>) is engine code. The sources only call it, so it is a parameter of
  every function that uses it.
\<close>

record engine =
  TransformPosition :: "FTransform \<Rightarrow> FVector \<Rightarrow> FVector"
  TransformRotation :: "FTransform \<Rightarrow> FQuat \<Rightarrow> FQuat"
  TransformMul :: "FTransform \<Rightarrow> FTransform \<Rightarrow> FTransform"
  TransformInverse :: "FTransform \<Rightarrow> FTransform"
  QuatRotator :: "FQuat \<Rightarrow> FRotator"
  RotatorQuat :: "FRotator \<Rightarrow> FQuat"
  RotatorGetInverse :: "FRotator \<Rightarrow> FRotator"
  QuatMul :: "FQuat \<Rightarrow> FQuat \<Rightarrow> FQuat"

section \<open>The grabbable component\<close>

subsection \<open>Data\<close>

text \<open>A touch pointer is a scene component owned by the host. The component reads its
  location, rotation and transform; \<open>touch_world\<close> is what the host reports at the
  moment of a call: the world time, the grabbable component's own transform, and the
  pointer object at each address.\<close>

record UTouchPointer =
  ComponentLocation :: FVector
  ComponentRotation :: FRotator
  ComponentTransform :: FTransform

record touch_world =
  TimeSeconds :: real
  ComponentToWorld :: FTransform
  Pointers :: "nat \<Rightarrow> UTouchPointer"

record FGrabPointerData =
  Pointer :: "nat option"
  StartTime :: real
  LocalGrabPoint :: FTransform

text \<open>The record with the given pointer, start time and local grab point. Where a
  function of the source has an argument named \<open>Pointer\<close>, it is written \<open>P\<close> here,
  as \<open>Pointer\<close> is the field.\<close>

definition grab_record :: "nat option \<Rightarrow> real \<Rightarrow> FTransform \<Rightarrow> FGrabPointerData" where
  "grab_record P t T = \<lparr>Pointer = P, StartTime = t, LocalGrabPoint = T\<rparr>"

text \<open>The calls the component makes into the host, in the order it makes them: the
  base class's handlers, the hover lock of a pointer, the two delegates and the tick
  function switch.\<close>

datatype grab_host_call =
    Super_GraspStarted "nat option"
  | Super_GraspEnded "nat option"
  | SetHoverLocked nat bool
  | OnBeginGrab_Broadcast FGrabPointerData
  | OnEndGrab_Broadcast FGrabPointerData
  | SetTickFunctionEnable bool

record UGrabbableComponent =
  GrabPointers :: "FGrabPointerData list"
  bTickOnlyWhileGrabbed :: bool
  HostCalls :: "grab_host_call list"

subsection \<open>UGrabPointerDataFunctionLibrary\<close>

definition GetGrabLocation :: "engine \<Rightarrow> FTransform \<Rightarrow> FGrabPointerData \<Rightarrow> FVector" where
  "GetGrabLocation E Transform PointerData =
     TransformPosition E Transform (Translation (LocalGrabPoint PointerData))"

definition GetGrabRotation :: "engine \<Rightarrow> FTransform \<Rightarrow> FGrabPointerData \<Rightarrow> FRotator" where
  "GetGrabRotation E Transform PointerData =
     QuatRotator E (TransformRotation E Transform (Rotation (LocalGrabPoint PointerData)))"

definition GetGrabTransform :: "engine \<Rightarrow> FTransform \<Rightarrow> FGrabPointerData \<Rightarrow> FTransform" where
  "GetGrabTransform E Transform PointerData =
     TransformMul E (LocalGrabPoint PointerData) Transform"

text \<open>\<open>ensure(c)\<close> evaluates to \<open>c\<close> and reports a failed assertion when \<open>c\<close> is false;
  execution continues. A function that contains an \<open>ensure\<close> returns its value paired
  with a flag: \<open>True\<close> when an \<open>ensure\<close> condition was false during the call.\<close>

definition GetTargetLocation :: "touch_world \<Rightarrow> FGrabPointerData \<Rightarrow> FVector \<times> bool" where
  "GetTargetLocation W PointerData =
     (case Pointer PointerData of
        Some a \<Rightarrow> (ComponentLocation (Pointers W a), False)
      | None \<Rightarrow> (ZeroVector, True))"

definition GetTargetRotation :: "touch_world \<Rightarrow> FGrabPointerData \<Rightarrow> FRotator \<times> bool" where
  "GetTargetRotation W PointerData =
     (case Pointer PointerData of
        Some a \<Rightarrow> (ComponentRotation (Pointers W a), False)
      | None \<Rightarrow> (ZeroRotator, True))"

definition GetTargetTransform :: "touch_world \<Rightarrow> FGrabPointerData \<Rightarrow> FTransform \<times> bool" where
  "GetTargetTransform W PointerData =
     (case Pointer PointerData of
        Some a \<Rightarrow> (ComponentTransform (Pointers W a), False)
      | None \<Rightarrow> (FTransform_Identity, True))"

definition GetLocationOffset ::
  "engine \<Rightarrow> touch_world \<Rightarrow> FTransform \<Rightarrow> FGrabPointerData \<Rightarrow> FVector \<times> bool" where
  "GetLocationOffset E W Transform PointerData =
     (let (target, failed) = GetTargetLocation W PointerData
      in (target - GetGrabLocation E Transform PointerData, failed))"

definition GetRotationOffset ::
  "engine \<Rightarrow> touch_world \<Rightarrow> FTransform \<Rightarrow> FGrabPointerData \<Rightarrow> FRotator \<times> bool" where
  "GetRotationOffset E W Transform PointerData =
     (let (target, failed) = GetTargetRotation W PointerData
      in (QuatRotator E
            (QuatMul E (RotatorQuat E target)
               (RotatorQuat E (RotatorGetInverse E (GetGrabRotation E Transform PointerData)))),
          failed))"

subsection \<open>UGrabbableComponent: queries\<close>

definition GetGrabPointers :: "UGrabbableComponent \<Rightarrow> FGrabPointerData list" where
  "GetGrabPointers s = GrabPointers s"

text \<open>The pointers of the records, in the order of the list.\<close>

definition grasping_pointers :: "UGrabbableComponent \<Rightarrow> nat option list" where
  "grasping_pointers s = map Pointer (GrabPointers s)"

text \<open>The centroid loops, and the division by \<open>FMath::Max(GrabPointers.Num(), 1)\<close>. The
  result is \<open>None\<close> where the division would be by zero.\<close>

definition GetGrabPointCentroid ::
  "engine \<Rightarrow> UGrabbableComponent \<Rightarrow> FTransform \<Rightarrow> FVector option" where
  "GetGrabPointCentroid E s Transform =
     div_FVector
       (foldl (\<lambda>centroid data. centroid + GetGrabLocation E Transform data)
          ZeroVector (GrabPointers s))
       (real (max (length (GrabPointers s)) 1))"

definition GetTargetCentroid ::
  "touch_world \<Rightarrow> UGrabbableComponent \<Rightarrow> FVector option \<times> bool" where
  "GetTargetCentroid W s =
     (let (centroid, failed) =
        foldl (\<lambda>(centroid, failed) data.
                 if Pointer data \<noteq> None
                 then (let (target, failed') = GetTargetLocation W data
                       in (centroid + target, failed \<or> failed'))
                 else (centroid, True))
          (ZeroVector, False) (GrabPointers s)
      in (div_FVector centroid (real (max (length (GrabPointers s)) 1)), failed))"

text \<open>\<open>FindGrabPointerInternal\<close>: the loop over the indices from \<open>i\<close>. The three results
  are the return value, \<open>OutData\<close> (a pointer to the record found, or \<open>nullptr\<close>) and
  \<open>OutIndex\<close>.\<close>

function FindGrabPointerInternal_from ::
  "FGrabPointerData list \<Rightarrow> nat option \<Rightarrow> nat \<Rightarrow> bool \<times> FGrabPointerData option \<times> int" where
  "FindGrabPointerInternal_from xs P i =
     (if i < length xs
      then (if Pointer (xs ! i) = P then (True, Some (xs ! i), int i)
            else FindGrabPointerInternal_from xs P (Suc i))
      else (False, None, - 1))"
  by pat_completeness auto
termination
  by (relation "measure (\<lambda>(xs, P, i). length xs - i)") auto

definition FindGrabPointerInternal ::
  "UGrabbableComponent \<Rightarrow> nat option \<Rightarrow> bool \<times> FGrabPointerData option \<times> int" where
  "FindGrabPointerInternal s P = FindGrabPointerInternal_from (GrabPointers s) P 0"

text \<open>\<open>FindGrabPointer\<close> takes the caller's \<open>PointerData\<close> and returns the three output
  parameters \<open>(Success, PointerData, Index)\<close>. It dereferences \<open>pData\<close> when \<open>Success\<close>
  is set: the result is \<open>None\<close> if that pointer were null.\<close>

definition FindGrabPointer ::
  "UGrabbableComponent \<Rightarrow> nat option \<Rightarrow> FGrabPointerData
     \<Rightarrow> (bool \<times> FGrabPointerData \<times> int) option" where
  "FindGrabPointer s P PointerData =
     (let (Success, pData, Index) = FindGrabPointerInternal s P
      in if Success
         then (case pData of
                 Some d \<Rightarrow> Some (Success, d, Index)
               | None \<Rightarrow> None)
         else Some (Success, PointerData, Index))"

text \<open>The primary and secondary accessors return \<open>(Valid, PointerData)\<close>; the caller's
  \<open>PointerData\<close> is left as it was when there is no such record.\<close>

definition GetPrimaryGrabPointer ::
  "UGrabbableComponent \<Rightarrow> FGrabPointerData \<Rightarrow> bool \<times> FGrabPointerData" where
  "GetPrimaryGrabPointer s PointerData =
     (if length (GrabPointers s) \<ge> 1 then (True, GrabPointers s ! 0)
      else (False, PointerData))"

definition GetSecondaryGrabPointer ::
  "UGrabbableComponent \<Rightarrow> FGrabPointerData \<Rightarrow> bool \<times> FGrabPointerData" where
  "GetSecondaryGrabPointer s PointerData =
     (if length (GrabPointers s) \<ge> 2 then (True, GrabPointers s ! 1)
      else (False, PointerData))"

subsection \<open>UGrabbableComponent: ticking and grasp handlers\<close>

definition GetTickOnlyWhileGrabbed :: "UGrabbableComponent \<Rightarrow> bool" where
  "GetTickOnlyWhileGrabbed s = bTickOnlyWhileGrabbed s"

definition UpdateComponentTickEnabled :: "UGrabbableComponent \<Rightarrow> UGrabbableComponent" where
  "UpdateComponentTickEnabled s =
     (if bTickOnlyWhileGrabbed s
      then s\<lparr>HostCalls := HostCalls s @ [SetTickFunctionEnable (length (GrabPointers s) > 0)]\<rparr>
      else s)"

definition SetTickOnlyWhileGrabbed :: "bool \<Rightarrow> UGrabbableComponent \<Rightarrow> UGrabbableComponent" where
  "SetTickOnlyWhileGrabbed bEnable s =
     (let s1 = s\<lparr>bTickOnlyWhileGrabbed := bEnable\<rparr>
      in if bEnable then UpdateComponentTickEnabled s1
         else s1\<lparr>HostCalls := HostCalls s1 @ [SetTickFunctionEnable True]\<rparr>)"

text \<open>\<open>GraspStarted_Implementation\<close> dereferences \<open>Pointer\<close> without a check: a null
  argument ends the run (\<open>None\<close>). Nothing in it looks at the records already held.\<close>

definition GraspStarted_Implementation ::
  "engine \<Rightarrow> touch_world \<Rightarrow> nat option \<Rightarrow> UGrabbableComponent \<Rightarrow> UGrabbableComponent option" where
  "GraspStarted_Implementation E W P s =
     (case P of
        None \<Rightarrow> None
      | Some a \<Rightarrow>
          (let data = \<lparr>Pointer = Some a,
                       StartTime = TimeSeconds W,
                       LocalGrabPoint =
                         TransformMul E (ComponentTransform (Pointers W a))
                           (TransformInverse E (ComponentToWorld W))\<rparr>
           in Some (UpdateComponentTickEnabled
                (s\<lparr>GrabPointers := GrabPointers s @ [data],
                   HostCalls := HostCalls s @
                     [Super_GraspStarted P, SetHoverLocked a True, OnBeginGrab_Broadcast data]\<rparr>))))"

definition ResetLocalGrabPoint ::
  "engine \<Rightarrow> touch_world \<Rightarrow> FGrabPointerData \<Rightarrow> FGrabPointerData option" where
  "ResetLocalGrabPoint E W PointerData =
     (case Pointer PointerData of
        None \<Rightarrow> None
      | Some a \<Rightarrow>
          Some (PointerData\<lparr>LocalGrabPoint :=
                  TransformMul E (ComponentTransform (Pointers W a))
                    (TransformInverse E (ComponentToWorld W))\<rparr>))"

text \<open>\<open>TArray::RemoveAll\<close> with the handler's predicate: the records are visited once, in
  order; a record of the released pointer is dropped after the pointer is unlocked and
  \<open>OnEndGrab\<close> is broadcast, the others keep their order. The predicate dereferences the
  argument when a record matches, so a null argument that matches ends the run.\<close>

fun GraspEnded_RemoveAll ::
  "nat option \<Rightarrow> FGrabPointerData list \<Rightarrow> (FGrabPointerData list \<times> grab_host_call list) option" where
  "GraspEnded_RemoveAll P [] = Some ([], [])"
| "GraspEnded_RemoveAll P (data # rest) =
     (if Pointer data = P
      then (case P of
              None \<Rightarrow> None
            | Some a \<Rightarrow>
                (case GraspEnded_RemoveAll P rest of
                   None \<Rightarrow> None
                 | Some (kept, calls) \<Rightarrow>
                     Some (kept, SetHoverLocked a False # OnEndGrab_Broadcast data # calls)))
      else (case GraspEnded_RemoveAll P rest of
              None \<Rightarrow> None
            | Some (kept, calls) \<Rightarrow> Some (data # kept, calls)))"

definition GraspEnded_Implementation ::
  "nat option \<Rightarrow> UGrabbableComponent \<Rightarrow> UGrabbableComponent option" where
  "GraspEnded_Implementation P s =
     (case GraspEnded_RemoveAll P (GrabPointers s) of
        None \<Rightarrow> None
      | Some (kept, calls) \<Rightarrow>
          (let s1 = UpdateComponentTickEnabled
                      (s\<lparr>GrabPointers := kept, HostCalls := HostCalls s @ calls\<rparr>)
           in Some (s1\<lparr>HostCalls := HostCalls s1 @ [Super_GraspEnded P]\<rparr>)))"

text \<open>A sequence of grasp calls, each with what the host reports when it is made. The
  run stops (\<open>None\<close>) at a call that dereferences a null pointer.\<close>

datatype grasp_call = GraspStarted "nat option" | GraspEnded "nat option"

fun grasp_step ::
  "engine \<Rightarrow> touch_world \<times> grasp_call \<Rightarrow> UGrabbableComponent \<Rightarrow> UGrabbableComponent option" where
  "grasp_step E (W, GraspStarted P) s = GraspStarted_Implementation E W P s"
| "grasp_step E (W, GraspEnded P) s = GraspEnded_Implementation P s"

fun grasp_run ::
  "engine \<Rightarrow> (touch_world \<times> grasp_call) list \<Rightarrow> UGrabbableComponent \<Rightarrow> UGrabbableComponent option" where
  "grasp_run E [] s = Some s"
| "grasp_run E (c # cs) s =
     (case grasp_step E c s of None \<Rightarrow> None | Some s' \<Rightarrow> grasp_run E cs s')"

text \<open>Counting the calls of a sequence: a pointer is currently grasping when its
  \<open>GraspStarted\<close> calls exceed its \<open>GraspEnded\<close> calls.\<close>

definition grasps_started :: "grasp_call list \<Rightarrow> nat option \<Rightarrow> nat" where
  "grasps_started cs P = length (filter (\<lambda>c. c = GraspStarted P) cs)"

definition grasps_ended :: "grasp_call list \<Rightarrow> nat option \<Rightarrow> nat" where
  "grasps_ended cs P = length (filter (\<lambda>c. c = GraspEnded P) cs)"

definition currently_grasping :: "grasp_call list \<Rightarrow> nat option \<Rightarrow> bool" where
  "currently_grasping cs P = (grasps_ended cs P < grasps_started cs P)"

fun call_pointer :: "grasp_call \<Rightarrow> nat option" where
  "call_pointer (GraspStarted P) = P"
| "call_pointer (GraspEnded P) = P"

text \<open>The host's grasp protocol: for each pointer the calls alternate, \<open>GraspStarted\<close>
  first. In every prefix of the sequence a pointer has as many \<open>GraspEnded\<close> calls as
  \<open>GraspStarted\<close> calls, or one less.\<close>

definition balanced :: "grasp_call list \<Rightarrow> nat option \<Rightarrow> bool" where
  "balanced cs P =
     (grasps_ended cs P \<le> grasps_started cs P \<and> grasps_started cs P \<le> Suc (grasps_ended cs P))"

definition alternating :: "grasp_call list \<Rightarrow> bool" where
  "alternating cs =
     list_all (\<lambda>n. list_all (\<lambda>c. balanced (take n cs) (call_pointer c)) cs) [0..<Suc (length cs)]"

definition starts_non_null :: "grasp_call list \<Rightarrow> bool" where
  "starts_non_null cs = list_all (\<lambda>c. c \<noteq> GraspStarted None) cs"

section \<open>The pressable button actor\<close>

subsection \<open>Data\<close>

text \<open>\<open>EControllerHand\<close> has more enumerators than these; the actor only tests for
  \<open>Left\<close>.\<close>

datatype EControllerHand = Left | Right | AnyHand

datatype EUxtButtonState = Default | Focused | Contacted | Pressed | Disabled

record UUxtPointerComponent =
  Hand :: EControllerHand
  CursorTransform :: FTransform

text \<open>The fields of the brushes that the modelled functions read. Materials, meshes
  and material instances are host objects, named by their addresses. A curve asset is
  its \<open>GetFloatValue\<close>.\<close>

record FUxtButtonVisualsBrush =
  BackPlateMaterial :: "nat option"
  BackPlateMesh :: "nat option"
  FrontPlateMaterial :: "nat option"
  FrontPlateMesh :: "nat option"
  FrontPlatePulseLeftMaterial :: "nat option"
  FrontPlatePulseRightMaterial :: "nat option"
  PulseTime :: real
  PulseFadeTime :: real
  IconFocusSpeed :: real
  IconFocusCurve :: "(real \<Rightarrow> real) option"

record FUxtButtonBrush =
  Visuals :: FUxtButtonVisualsBrush

record FUxtTextBrush =
  RelativeLocation :: FVector

record FUxtIconBrush =
  TextBrush :: FUxtTextBrush

text \<open>The calls the actor makes on its components and on itself as an engine actor, in
  the order it makes them.\<close>

datatype button_host_call =
    Super_Tick real
  | SetActorTickEnabled bool
  | BackPlate_SetBackPlateMaterial "nat option"
  | BackPlate_SetStaticMesh "nat option"
  | BackPlate_SetRelativeScale3D FVector
  | BackPlate_SetVisibility bool
  | FrontPlateCenter_SetRelativeLocation FVector
  | FrontPlate_SetMaterial int "nat option"
  | FrontPlate_SetStaticMesh "nat option"
  | FrontPlate_SetRelativeScale3D FVector
  | FrontPlate_SetRelativeRotation FRotator
  | FrontPlate_CreateDynamicMaterialInstance int "nat option" string
  | Instance_SetVectorParameterValue nat string FVector
  | Instance_SetScalarParameterValue nat string real
  | Button_SetVisuals string
  | Button_SetMaxPushDistance real
  | Icon_SetRelativeLocation FVector

text \<open>What the host reports to the actor during one call: the material in slot 0 of the
  front plate, the front plate's forward vector, the instance that
  \<open>CreateDynamicMaterialInstance\<close> returns (possibly null), the back plate's relative
  scale, the name of the front plate pivot, the button component's state and the actor's
  forward vector.\<close>

record button_host =
  FrontPlate_GetMaterial :: "nat option"
  FrontPlate_GetForwardVector :: FVector
  FrontPlate_NewMaterialInstance :: "nat option"
  BackPlate_GetRelativeScale3D :: FVector
  FrontPlatePivot_GetName :: string
  Button_GetState :: EUxtButtonState
  GetActorForwardVector :: FVector

record AUxtPressableButtonActor =
  ButtonBrush :: FUxtButtonBrush
  IconBrush :: FUxtIconBrush
  MillimeterSize :: FVector
  bIsPlated :: bool
  PulseTimer :: real
  PulseFadeTimer :: real
  FocusTimer :: real
  MaterialIndex :: int
  PrePulseMaterial :: "nat option"
  PulseMaterialInstance :: "nat option"
  ActorCalls :: "button_host_call list"

text \<open>The file's tables of material instance and parameter names, indexed by
  \<open>MaterialIndex\<close>. Reading a C array outside its bounds is undefined: \<open>array_at\<close> gives
  \<open>None\<close> there.\<close>

definition PulseInstanceNames :: "string list" where
  "PulseInstanceNames = [''RightPulse'', ''LeftPulse'']"

definition PulseInstanceFadeNames :: "string list" where
  "PulseInstanceFadeNames = [''RightPulseFade'', ''LeftPulseFade'']"

definition PulsePositionNames :: "string list" where
  "PulsePositionNames = [''Blob_Position_2'', ''Blob_Position'']"

definition PulseValueNames :: "string list" where
  "PulseValueNames = [''Blob_Pulse_2'', ''Blob_Pulse'']"

definition PulseFadeNames :: "string list" where
  "PulseFadeNames = [''Blob_Fade_2'', ''Blob_Fade'']"

definition array_at :: "'a list \<Rightarrow> int \<Rightarrow> 'a option" where
  "array_at xs i = (if 0 \<le> i \<and> i < int (length xs) then Some (xs ! nat i) else None)"

text \<open>\<open>FMath::Clamp\<close> and \<open>FMath::Lerp\<close>, as the engine's templates compute them, \<open>Lerp\<close>
  with the float32 operations.\<close>

definition Clamp :: "real \<Rightarrow> real \<Rightarrow> real \<Rightarrow> real" where
  "Clamp x lo hi = (if x < lo then lo else if x < hi then x else hi)"

definition Lerp :: "FVector \<Rightarrow> FVector \<Rightarrow> real \<Rightarrow> FVector" where
  "Lerp A B Alpha = fadd_FVector A (fscale_FVector (fsub_FVector B A) Alpha)"

definition call :: "button_host_call list \<Rightarrow> AUxtPressableButtonActor \<Rightarrow> AUxtPressableButtonActor" where
  "call cs s = s\<lparr>ActorCalls := ActorCalls s @ cs\<rparr>"

subsection \<open>Construction of the visuals, and the size setters\<close>

text \<open>\<open>GetSize\<close> and \<open>IsPulsing\<close> are member functions defined in the actor's header,
  which is not among the sources; each is a parameter of the functions that call it.\<close>

definition ConstructVisuals ::
  "(AUxtPressableButtonActor \<Rightarrow> FVector) \<Rightarrow> button_host
     \<Rightarrow> AUxtPressableButtonActor \<Rightarrow> AUxtPressableButtonActor" where
  "ConstructVisuals GetSize H s =
     (let V = Visuals (ButtonBrush s);
          s1 = (if BackPlateMaterial V \<noteq> None
                then call [BackPlate_SetBackPlateMaterial (BackPlateMaterial V)] s else s);
          s2 = (if BackPlateMesh V \<noteq> None
                then call [BackPlate_SetStaticMesh (BackPlateMesh V)] s1 else s1);
          Size = GetSize s2;
          s3 = call [BackPlate_SetRelativeScale3D
                       (FVector (Z Size) (Y Size) (Z (BackPlate_GetRelativeScale3D H))),
                     BackPlate_SetVisibility (bIsPlated s2),
                     FrontPlateCenter_SetRelativeLocation (FVector (X Size * 0.5) 0 0)] s2;
          s4 = (if FrontPlateMaterial V \<noteq> None
                then call [FrontPlate_SetMaterial 0 (FrontPlateMaterial V)] s3 else s3);
          s5 = (if FrontPlateMesh V \<noteq> None
                then call [FrontPlate_SetStaticMesh (FrontPlateMesh V)] s4 else s4)
      in call [FrontPlate_SetRelativeScale3D Size,
               FrontPlate_SetRelativeRotation (FRotator 180 0 0),
               Button_SetVisuals (FrontPlatePivot_GetName H),
               Button_SetMaxPushDistance (X Size)] s5)"

definition SetMillimeterSize ::
  "(AUxtPressableButtonActor \<Rightarrow> FVector) \<Rightarrow> button_host \<Rightarrow> FVector
     \<Rightarrow> AUxtPressableButtonActor \<Rightarrow> AUxtPressableButtonActor" where
  "SetMillimeterSize GetSize H Size s =
     (if MillimeterSize s \<noteq> Size
      then ConstructVisuals GetSize H (s\<lparr>MillimeterSize := Size\<rparr>)
      else s)"

definition SetSize ::
  "(AUxtPressableButtonActor \<Rightarrow> FVector) \<Rightarrow> button_host \<Rightarrow> FVector
     \<Rightarrow> AUxtPressableButtonActor \<Rightarrow> AUxtPressableButtonActor" where
  "SetSize GetSize H Size s =
     (let NewSize = scale_FVector Size 10
      in if MillimeterSize s \<noteq> NewSize
         then ConstructVisuals GetSize H (s\<lparr>MillimeterSize := NewSize\<rparr>)
         else s)"

definition SetIsPlated :: "bool \<Rightarrow> AUxtPressableButtonActor \<Rightarrow> AUxtPressableButtonActor" where
  "SetIsPlated IsPlated s =
     (if bIsPlated s \<noteq> IsPlated
      then call [BackPlate_SetVisibility IsPlated] (s\<lparr>bIsPlated := IsPlated\<rparr>)
      else s)"

definition SetButtonBrush ::
  "(AUxtPressableButtonActor \<Rightarrow> FVector) \<Rightarrow> button_host \<Rightarrow> FUxtButtonBrush
     \<Rightarrow> AUxtPressableButtonActor \<Rightarrow> AUxtPressableButtonActor" where
  "SetButtonBrush GetSize H Brush s = ConstructVisuals GetSize H (s\<lparr>ButtonBrush := Brush\<rparr>)"

subsection \<open>Pulse\<close>

text \<open>Modelled from the spec: \<open>IsPulsing\<close> is defined in the actor's header, which is
  not among the sources. The spec has a pulse in progress while it is rising or fading.
  In \<open>AnimatePulse\<close> the pulse rises while \<open>PulseTimer\<close> is in \<open>[0, 1]\<close> and fades while
  it is above 1; \<open>BeginPulse\<close> sets the timer to 0 and the end of the fade resets it to
  \<open>-1\<close>.\<close>

definition pulse_in_progress :: "AUxtPressableButtonActor \<Rightarrow> bool" where
  "pulse_in_progress s = (PulseTimer s \<ge> 0)"

text \<open>\<open>BeginPulse\<close> returns its result with the actor after the call. It dereferences
  the material instance the host hands back; the run ends (\<open>None\<close>) if that is null.\<close>

definition BeginPulse ::
  "(AUxtPressableButtonActor \<Rightarrow> bool) \<Rightarrow> button_host \<Rightarrow> UUxtPointerComponent option
     \<Rightarrow> AUxtPressableButtonActor \<Rightarrow> (bool \<times> AUxtPressableButtonActor) option" where
  "BeginPulse IsPulsing H P s =
     (if IsPulsing s \<or> P = None then Some (False, s)
      else do {
        ptr \<leftarrow> P;
        let s1 = s\<lparr>PulseTimer := 0, PulseFadeTimer := 0,
                   PrePulseMaterial := FrontPlate_GetMaterial H\<rparr>;
        let s2 = s1\<lparr>MaterialIndex := (if Hand ptr = Left then 1 else 0)\<rparr>;
        let PulseMaterials = [FrontPlatePulseRightMaterial (Visuals (ButtonBrush s2)),
                              FrontPlatePulseLeftMaterial (Visuals (ButtonBrush s2))];
        material \<leftarrow> array_at PulseMaterials (MaterialIndex s2);
        instance_name \<leftarrow> array_at PulseInstanceNames (MaterialIndex s2);
        let s3 = call [FrontPlate_CreateDynamicMaterialInstance 0 material instance_name]
                   (s2\<lparr>PulseMaterialInstance := FrontPlate_NewMaterialInstance H\<rparr>);
        let PulseLocation = Translation (CursorTransform ptr) - FrontPlate_GetForwardVector H;
        position_name \<leftarrow> array_at PulsePositionNames (MaterialIndex s3);
        inst \<leftarrow> PulseMaterialInstance s3;
        Some (True,
              call [Instance_SetVectorParameterValue inst position_name PulseLocation,
                    SetActorTickEnabled True] s3)
      })"

text \<open>\<open>AnimatePulse\<close>: the three phases by the value of \<open>PulseTimer\<close>. It returns
  whether the pulse animation is complete.\<close>

definition AnimatePulse ::
  "button_host \<Rightarrow> real \<Rightarrow> AUxtPressableButtonActor \<Rightarrow> (bool \<times> AUxtPressableButtonActor) option" where
  "AnimatePulse H DeltaTime s =
     (if PulseTimer s > 1
      then (if PulseFadeTimer s > 1
            then Some (True,
                   (call [FrontPlate_SetMaterial 0 (PrePulseMaterial s)] s)
                     \<lparr>PulseMaterialInstance := None, PulseTimer := - 1, PulseFadeTimer := - 1\<rparr>)
            else do {
              inst \<leftarrow> PulseMaterialInstance s;
              fade_name \<leftarrow> array_at PulseFadeNames (MaterialIndex s);
              let s1 = call [Instance_SetScalarParameterValue inst fade_name (PulseFadeTimer s)] s;
              let FadeTime = PulseFadeTime (Visuals (ButtonBrush s1));
              Some (False,
                    s1\<lparr>PulseFadeTimer := PulseFadeTimer s1
                          + (1 / (if FadeTime \<le> 0 then 1 else FadeTime)) * DeltaTime\<rparr>)
            })
      else if PulseTimer s \<ge> 0
      then do {
             inst \<leftarrow> PulseMaterialInstance s;
             value_name \<leftarrow> array_at PulseValueNames (MaterialIndex s);
             let s1 = call [Instance_SetScalarParameterValue inst value_name (PulseTimer s)] s;
             let Time = PulseTime (Visuals (ButtonBrush s1));
             let s2 = s1\<lparr>PulseTimer := PulseTimer s1
                            + (1 / (if Time \<le> 0 then 1 else Time)) * DeltaTime\<rparr>;
             if PulseTimer s2 > 1
             then do {
                    let s3 = s2\<lparr>PulseFadeTimer := 0\<rparr>;
                    fade_instance_name \<leftarrow> array_at PulseInstanceFadeNames (MaterialIndex s3);
                    let s4 = call [FrontPlate_CreateDynamicMaterialInstance 0
                                     (PrePulseMaterial s3) fade_instance_name]
                               (s3\<lparr>PulseMaterialInstance := FrontPlate_NewMaterialInstance H\<rparr>);
                    fade_inst \<leftarrow> PulseMaterialInstance s4;
                    fade_name \<leftarrow> array_at PulseFadeNames (MaterialIndex s4);
                    Some (False,
                          call [Instance_SetScalarParameterValue fade_inst fade_name
                                  (PulseFadeTimer s4)] s4)
                  }
             else Some (False, s2)
           }
      else Some (True, s))"

subsection \<open>Focus\<close>

text \<open>\<open>AnimateFocus\<close>, with the float32 operations. The factor \<open>1\<close> or \<open>-1\<close> is the
  \<open>int\<close> of the source converted to \<open>float\<close>.\<close>

definition AnimateFocus ::
  "(AUxtPressableButtonActor \<Rightarrow> FVector) \<Rightarrow> button_host \<Rightarrow> real
     \<Rightarrow> AUxtPressableButtonActor \<Rightarrow> bool \<times> AUxtPressableButtonActor" where
  "AnimateFocus GetSize H DeltaTime s =
     (let IsFocused = (Button_GetState H = Focused);
          FocusSpeed = fmul32 (IconFocusSpeed (Visuals (ButtonBrush s)))
                         (if IsFocused then 1 else - 1);
          s1 = s\<lparr>FocusTimer :=
                  Clamp (fadd32 (FocusTimer s) (fmul32 DeltaTime FocusSpeed)) 0 1\<rparr>;
          CurveTime = (case IconFocusCurve (Visuals (ButtonBrush s1)) of
                         Some curve \<Rightarrow> curve (FocusTimer s1)
                       | None \<Rightarrow> FocusTimer s1);
          Rest = RelativeLocation (TextBrush (IconBrush s1));
          s2 = call [Icon_SetRelativeLocation
                       (Lerp Rest
                          (fadd_FVector Rest
                             (fscale_FVector (GetActorForwardVector H)
                                (fmul32 (X (GetSize s1)) (- 0.25))))
                          CurveTime)] s1
      in (FocusTimer s2 = 0, s2))"

text \<open>\<open>Tick\<close>: both animations run every frame; ticking is switched off when both report
  that they are complete.\<close>

definition Tick ::
  "(AUxtPressableButtonActor \<Rightarrow> FVector) \<Rightarrow> button_host \<Rightarrow> real
     \<Rightarrow> AUxtPressableButtonActor \<Rightarrow> AUxtPressableButtonActor option" where
  "Tick GetSize H DeltaTime s =
     do {
       (PulseComplete, s1) \<leftarrow> AnimatePulse H DeltaTime (call [Super_Tick DeltaTime] s);
       let (FocusComplete, s2) = AnimateFocus GetSize H DeltaTime s1;
       Some (if PulseComplete \<and> FocusComplete then call [SetActorTickEnabled False] s2 else s2)
     }"

text \<open>The host calls \<open>AnimateFocus\<close> once per frame: a sequence of frames, each with its
  \<open>DeltaTime\<close> and what the host reports in it.\<close>

fun AnimateFocus_frames ::
  "(AUxtPressableButtonActor \<Rightarrow> FVector) \<Rightarrow> (real \<times> button_host) list
     \<Rightarrow> AUxtPressableButtonActor \<Rightarrow> AUxtPressableButtonActor" where
  "AnimateFocus_frames GetSize [] s = s"
| "AnimateFocus_frames GetSize ((DeltaTime, H) # frames) s =
     AnimateFocus_frames GetSize frames (snd (AnimateFocus GetSize H DeltaTime s))"

text \<open>A run of frames in which the button is never focused and no \<open>DeltaTime\<close> is
  negative. In such a frame \<open>AnimateFocus\<close> adds \<open>DeltaTime * (IconFocusSpeed * -1)\<close> to
  the timer; \<open>focus_decrement\<close> is that float32 product with the opposite sign, the
  amount the frame takes off before the sum is rounded and clamped. \<open>steady\<close> frames
  each take off at least \<open>2 ^ -24\<close>, the largest unit in the last place of a timer below
  1.\<close>

definition unfocused :: "(real \<times> button_host) list \<Rightarrow> bool" where
  "unfocused frames =
     list_all (\<lambda>(DeltaTime, H). 0 \<le> DeltaTime \<and> Button_GetState H \<noteq> Focused) frames"

definition focus_decrement :: "real \<Rightarrow> real \<Rightarrow> real" where
  "focus_decrement Speed DeltaTime = - fmul32 DeltaTime (fmul32 Speed (- 1))"

definition decrements :: "real \<Rightarrow> (real \<times> button_host) list \<Rightarrow> real" where
  "decrements Speed frames =
     sum_list (map (\<lambda>(DeltaTime, H). focus_decrement Speed DeltaTime) frames)"

definition steady :: "real \<Rightarrow> (real \<times> button_host) list \<Rightarrow> bool" where
  "steady Speed frames =
     list_all (\<lambda>(DeltaTime, H). 1 / 2 ^ 24 \<le> focus_decrement Speed DeltaTime) frames"

section \<open>Concrete inputs\<close>

text \<open>Inputs at which the functions are evaluated below. \<open>translation_engine\<close> is the
  engine's algebra on transforms that only translate (identity rotation, unit scale),
  which is all the concrete inputs use.\<close>

definition translation_engine :: engine where
  "translation_engine =
     \<lparr>TransformPosition = (\<lambda>T v. v + Translation T),
      TransformRotation = (\<lambda>T q. q),
      TransformMul = (\<lambda>A B. A\<lparr>Translation := Translation A + Translation B\<rparr>),
      TransformInverse = (\<lambda>T. T\<lparr>Translation := ZeroVector - Translation T\<rparr>),
      QuatRotator = (\<lambda>q. ZeroRotator),
      RotatorQuat = (\<lambda>r. FQuat 0 0 0 1),
      RotatorGetInverse = (\<lambda>r. r),
      QuatMul = (\<lambda>a b. a)\<rparr>"

definition translate :: "real \<Rightarrow> real \<Rightarrow> real \<Rightarrow> FTransform" where
  "translate x y z = FTransform_Identity\<lparr>Translation := FVector x y z\<rparr>"

definition sample_world :: touch_world where
  "sample_world =
     \<lparr>TimeSeconds = 5,
      ComponentToWorld = translate 1 0 0,
      Pointers = (\<lambda>a. \<lparr>ComponentLocation = FVector (real a) 2 3,
                        ComponentRotation = ZeroRotator,
                        ComponentTransform = translate (real a) 2 3\<rparr>)\<rparr>"

definition empty_component :: UGrabbableComponent where
  "empty_component = \<lparr>GrabPointers = [], bTickOnlyWhileGrabbed = True, HostCalls = []\<rparr>"

definition sample_brush :: FUxtButtonBrush where
  "sample_brush =
     \<lparr>Visuals =
        \<lparr>BackPlateMaterial = Some 1, BackPlateMesh = Some 2,
         FrontPlateMaterial = Some 3, FrontPlateMesh = Some 4,
         FrontPlatePulseLeftMaterial = Some 5, FrontPlatePulseRightMaterial = Some 6,
         PulseTime = 1 / 4, PulseFadeTime = 0,
         IconFocusSpeed = 8, IconFocusCurve = None\<rparr>\<rparr>"

definition sample_button :: AUxtPressableButtonActor where
  "sample_button =
     \<lparr>ButtonBrush = sample_brush,
      IconBrush = \<lparr>TextBrush = \<lparr>RelativeLocation = FVector 0 0 0\<rparr>\<rparr>,
      MillimeterSize = FVector 16 32 32,
      bIsPlated = True,
      PulseTimer = - 1, PulseFadeTimer = - 1, FocusTimer = 0,
      MaterialIndex = 0,
      PrePulseMaterial = None, PulseMaterialInstance = None,
      ActorCalls = []\<rparr>"

definition sample_host :: button_host where
  "sample_host =
     \<lparr>FrontPlate_GetMaterial = Some 3,
      FrontPlate_GetForwardVector = FVector 1 0 0,
      FrontPlate_NewMaterialInstance = Some 7,
      BackPlate_GetRelativeScale3D = FVector 1 1 1,
      FrontPlatePivot_GetName = ''FrontPlatePivot'',
      Button_GetState = Default,
      GetActorForwardVector = FVector 1 0 0\<rparr>"

definition left_pointer :: UUxtPointerComponent where
  "left_pointer = \<lparr>Hand = Left, CursorTransform = translate 2 0 0\<rparr>"

text \<open>An instance of \<open>GetSize\<close> for these evaluations: the size in Unreal units is a
  tenth of the size in millimeters.\<close>

definition tenth_of_millimeters :: "AUxtPressableButtonActor \<Rightarrow> FVector" where
  "tenth_of_millimeters s = scale_FVector (MillimeterSize s) (1 / 10)"

text \<open>A button whose \<open>IconFocusSpeed\<close> is the float32 nearest to \<open>0.2\<close>.\<close>

definition fifth_button :: AUxtPressableButtonActor where
  "fifth_button =
     sample_button\<lparr>ButtonBrush :=
       \<lparr>Visuals = (Visuals sample_brush)\<lparr>IconFocusSpeed := 13421773 / 67108864\<rparr>\<rparr>\<rparr>"

definition reversed_button :: AUxtPressableButtonActor where
  "reversed_button =
     sample_button\<lparr>ButtonBrush :=
       \<lparr>Visuals = (Visuals sample_brush)\<lparr>IconFocusSpeed := - 1\<rparr>\<rparr>\<rparr>"

definition on_world :: "grasp_call list \<Rightarrow> (touch_world \<times> grasp_call) list" where
  "on_world cs = map (\<lambda>c. (sample_world, c)) cs"

section \<open>Properties of the grabbable component\<close>

subsection \<open>Auxiliary facts\<close>

lemma GrabPointers_UpdateComponentTickEnabled:
  "GrabPointers (UpdateComponentTickEnabled s) = GrabPointers s"
  by (simp add: UpdateComponentTickEnabled_def)

lemma GraspEnded_RemoveAll_filter:
  "P = None \<longrightarrow> None \<notin> Pointer ` set xs \<Longrightarrow>
   \<exists>calls. GraspEnded_RemoveAll P xs = Some (filter (\<lambda>d. Pointer d \<noteq> P) xs, calls)"
proof (induction xs)
  case Nil
  then show ?case by simp
next
  case (Cons d xs)
  then obtain calls where
    c: "GraspEnded_RemoveAll P xs = Some (filter (\<lambda>d. Pointer d \<noteq> P) xs, calls)"
    by auto
  show ?case
  proof (cases "Pointer d = P")
    case True
    with Cons.prems obtain a where "P = Some a" by (cases P) auto
    with True c show ?thesis by simp
  next
    case False
    with c show ?thesis by simp
  qed
qed

lemma GraspStarted_pointers:
  "GraspStarted_Implementation E W (Some a) s = Some s' \<Longrightarrow>
   grasping_pointers s' = grasping_pointers s @ [Some a]"
  by (auto simp: GraspStarted_Implementation_def Let_def grasping_pointers_def
      GrabPointers_UpdateComponentTickEnabled)

lemma GraspStarted_returns:
  "\<exists>s'. GraspStarted_Implementation E W (Some a) s = Some s'"
  by (simp add: GraspStarted_Implementation_def Let_def)

lemma GraspEnded_pointers:
  assumes "P = None \<longrightarrow> None \<notin> set (grasping_pointers s)"
  shows "\<exists>s'. GraspEnded_Implementation P s = Some s' \<and>
     grasping_pointers s' = filter (\<lambda>Q. Q \<noteq> P) (grasping_pointers s)"
proof -
  from assms have "P = None \<longrightarrow> None \<notin> Pointer ` set (GrabPointers s)"
    by (simp add: grasping_pointers_def)
  then obtain calls where
    "GraspEnded_RemoveAll P (GrabPointers s)
       = Some (filter (\<lambda>d. Pointer d \<noteq> P) (GrabPointers s), calls)"
    using GraspEnded_RemoveAll_filter by blast
  then show ?thesis
    by (simp add: GraspEnded_Implementation_def Let_def filter_map comp_def
        grasping_pointers_def GrabPointers_UpdateComponentTickEnabled)
qed

lemma grasp_run_snoc:
  "grasp_run E (tr @ [c]) s =
     (case grasp_run E tr s of None \<Rightarrow> None | Some s' \<Rightarrow> grasp_step E c s')"
  by (induction tr arbitrary: s) (auto split: option.splits)

lemma grasps_started_snoc:
  "grasps_started (cs @ [c]) P = grasps_started cs P + (if c = GraspStarted P then 1 else 0)"
  by (simp add: grasps_started_def)

lemma grasps_ended_snoc:
  "grasps_ended (cs @ [c]) P = grasps_ended cs P + (if c = GraspEnded P then 1 else 0)"
  by (simp add: grasps_ended_def)

lemma counts_zero_outside:
  assumes "P \<notin> call_pointer ` set cs"
  shows "grasps_started (take n cs) P = 0" and "grasps_ended (take n cs) P = 0"
proof -
  have "\<And>c. c \<in> set (take n cs) \<Longrightarrow> call_pointer c \<noteq> P"
    using assms by (metis image_eqI in_set_takeD)
  then have "\<And>c. c \<in> set (take n cs) \<Longrightarrow> c \<noteq> GraspStarted P \<and> c \<noteq> GraspEnded P"
    by fastforce
  then show "grasps_started (take n cs) P = 0" and "grasps_ended (take n cs) P = 0"
    by (auto simp: grasps_started_def grasps_ended_def filter_empty_conv)
qed

lemma alternating_iff:
  "alternating cs \<longleftrightarrow> (\<forall>n\<le>length cs. \<forall>P. balanced (take n cs) P)"
proof
  assume a: "alternating cs"
  show "\<forall>n\<le>length cs. \<forall>P. balanced (take n cs) P"
  proof (intro allI impI)
    fix n P assume n: "n \<le> length cs"
    show "balanced (take n cs) P"
    proof (cases "P \<in> call_pointer ` set cs")
      case True
      with a n show ?thesis
        by (auto simp: alternating_def list_all_iff)
    next
      case False
      then show ?thesis by (simp add: balanced_def counts_zero_outside)
    qed
  qed
next
  assume "\<forall>n\<le>length cs. \<forall>P. balanced (take n cs) P"
  then show "alternating cs"
    by (auto simp: alternating_def list_all_iff)
qed

lemma alternating_snoc:
  assumes "alternating (cs @ [c])"
  shows "alternating cs" and "balanced (cs @ [c]) P" and "balanced cs P"
proof -
  from assms have all: "\<forall>n\<le>Suc (length cs). \<forall>P. balanced (take n (cs @ [c])) P"
    by (simp add: alternating_iff)
  have "\<forall>n\<le>length cs. \<forall>P. balanced (take n cs) P"
  proof (intro allI impI)
    fix n P assume "n \<le> length cs"
    then have "n \<le> Suc (length cs)" by simp
    with all have "balanced (take n (cs @ [c])) P" by blast
    with \<open>n \<le> length cs\<close> show "balanced (take n cs) P" by simp
  qed
  then show "alternating cs" by (simp add: alternating_iff)
  from all have "balanced (take (Suc (length cs)) (cs @ [c])) P" by blast
  then show "balanced (cs @ [c]) P" by simp
  from \<open>alternating cs\<close> have "balanced (take (length cs) cs) P"
    unfolding alternating_iff by blast
  then show "balanced cs P" by simp
qed

lemma started_pos_mem:
  "0 < grasps_started cs P \<Longrightarrow> GraspStarted P \<in> set cs"
  by (auto simp: grasps_started_def filter_empty_conv)

subsection \<open>The record list under sequences of grasp calls\<close>

text \<open>
  \<^bold>\<open>C1\<close>, as the source has it. \<open>GraspStarted\<close> appends a record whatever the list
  holds, and \<open>GraspEnded\<close> removes every record of its pointer. So the claim fails for
  arbitrary call sequences (see the counterexample below). What holds: start from a
  component with no record, and let the calls follow the host's grasp protocol: for each
  pointer \<open>GraspStarted\<close> and \<open>GraspEnded\<close> alternate, \<open>GraspStarted\<close> first, and no
  \<open>GraspStarted\<close> passes a null pointer. Then every call returns, no two records hold
  the same pointer, and the pointers of the records are exactly the pointers whose
  \<open>GraspStarted\<close> calls so far exceed their \<open>GraspEnded\<close> calls.
\<close>

theorem grasp_records_under_protocol:
  assumes empty: "GrabPointers s = []"
  shows "alternating (map snd tr) \<Longrightarrow> starts_non_null (map snd tr) \<Longrightarrow>
     \<exists>s'. grasp_run E tr s = Some s' \<and> distinct (grasping_pointers s')
        \<and> (\<forall>P. P \<in> set (grasping_pointers s') \<longleftrightarrow> currently_grasping (map snd tr) P)"
proof (induction tr rule: rev_induct)
  case Nil
  show ?case
    using empty
    by (simp add: currently_grasping_def grasps_started_def grasps_ended_def
        grasping_pointers_def)
next
  case (snoc x tr)
  obtain W c where x: "x = (W, c)" by (cases x)
  let ?cs = "map snd tr"
  from snoc.prems x have alt: "alternating (?cs @ [c])" and nn: "starts_non_null (?cs @ [c])"
    by simp_all
  from alt have alt': "alternating ?cs" by (rule alternating_snoc)
  from nn have nn': "starts_non_null ?cs" and cnn: "c \<noteq> GraspStarted None"
    by (simp_all add: starts_non_null_def)
  from snoc.IH [OF alt' nn'] obtain s1 where
    run: "grasp_run E tr s = Some s1" and
    dist: "distinct (grasping_pointers s1)" and
    mem: "\<And>P. P \<in> set (grasping_pointers s1) \<longleftrightarrow> currently_grasping ?cs P"
    by blast
  show ?case
  proof (cases c)
    case (GraspStarted P)
    with cnn obtain a where P: "P = Some a" by (cases P) auto
    obtain s2 where s2: "GraspStarted_Implementation E W (Some a) s1 = Some s2"
      using GraspStarted_returns by blast
    then have ptrs: "grasping_pointers s2 = grasping_pointers s1 @ [P]"
      using P by (simp add: GraspStarted_pointers)
    from alt GraspStarted have "balanced (?cs @ [GraspStarted P]) P"
      by (simp add: alternating_snoc)
    then have le: "grasps_started ?cs P \<le> grasps_ended ?cs P"
      by (simp add: balanced_def grasps_started_snoc grasps_ended_snoc)
    then have "\<not> currently_grasping ?cs P" by (simp add: currently_grasping_def)
    with mem have notin: "P \<notin> set (grasping_pointers s1)" by blast
    from alt have "balanced ?cs P" by (rule alternating_snoc)
    with le have eq: "grasps_started ?cs P = grasps_ended ?cs P" by (simp add: balanced_def)
    have "\<forall>Q. Q \<in> set (grasping_pointers s2) \<longleftrightarrow> currently_grasping (?cs @ [c]) Q"
    proof
      fix Q
      show "Q \<in> set (grasping_pointers s2) \<longleftrightarrow> currently_grasping (?cs @ [c]) Q"
      proof (cases "Q = P")
        case True
        with eq GraspStarted ptrs show ?thesis
          by (simp add: currently_grasping_def grasps_started_snoc grasps_ended_snoc)
      next
        case False
        have "currently_grasping (?cs @ [c]) Q = currently_grasping ?cs Q"
          using False GraspStarted
          by (auto simp add: currently_grasping_def grasps_started_snoc grasps_ended_snoc)
        with False ptrs mem [of Q] show ?thesis by auto
      qed
    qed
    moreover from dist notin ptrs have "distinct (grasping_pointers s2)" by simp
    moreover have "grasp_run E (tr @ [x]) s = Some s2"
      using run s2 x GraspStarted P by (simp add: grasp_run_snoc)
    ultimately show ?thesis using x by auto
  next
    case (GraspEnded P)
    from alt GraspEnded have "balanced (?cs @ [GraspEnded P]) P"
      by (simp add: alternating_snoc)
    then have lt: "grasps_ended ?cs P < grasps_started ?cs P"
      by (simp add: balanced_def grasps_started_snoc grasps_ended_snoc)
    from alt have "balanced ?cs P" by (rule alternating_snoc)
    with lt have eq: "grasps_started ?cs P = Suc (grasps_ended ?cs P)"
      by (simp add: balanced_def)
    have "P \<noteq> None"
    proof
      assume "P = None"
      with lt have "GraspStarted None \<in> set ?cs" by (intro started_pos_mem) simp
      with nn' show False by (auto simp add: starts_non_null_def list_all_iff)
    qed
    then obtain s2 where s2: "GraspEnded_Implementation P s1 = Some s2" and
      ptrs: "grasping_pointers s2 = filter (\<lambda>Q. Q \<noteq> P) (grasping_pointers s1)"
      using GraspEnded_pointers [of P s1] by auto
    have "\<forall>Q. Q \<in> set (grasping_pointers s2) \<longleftrightarrow> currently_grasping (?cs @ [c]) Q"
    proof
      fix Q
      show "Q \<in> set (grasping_pointers s2) \<longleftrightarrow> currently_grasping (?cs @ [c]) Q"
      proof (cases "Q = P")
        case True
        with eq GraspEnded ptrs show ?thesis
          by (simp add: currently_grasping_def grasps_started_snoc grasps_ended_snoc)
      next
        case False
        have "currently_grasping (?cs @ [c]) Q = currently_grasping ?cs Q"
          using False GraspEnded
          by (auto simp add: currently_grasping_def grasps_started_snoc grasps_ended_snoc)
        with False ptrs mem [of Q] show ?thesis by auto
      qed
    qed
    moreover from dist ptrs have "distinct (grasping_pointers s2)" by simp
    moreover have "grasp_run E (tr @ [x]) s = Some s2"
      using run s2 x GraspEnded by (simp add: grasp_run_snoc)
    ultimately show ?thesis using x by auto
  qed
qed

lemma calls_on_world: "map snd (on_world cs) = cs"
  by (simp add: on_world_def comp_def)

theorem grasp_records_under_protocol_witness:
  "GrabPointers empty_component = []
   \<and> alternating [GraspStarted (Some 1), GraspStarted (Some 2), GraspEnded (Some 1),
                  GraspStarted (Some 1)]
   \<and> starts_non_null [GraspStarted (Some 1), GraspStarted (Some 2), GraspEnded (Some 1),
                      GraspStarted (Some 1)]
   \<and> map_option grasping_pointers
        (grasp_run translation_engine
           (on_world [GraspStarted (Some 1), GraspStarted (Some 2), GraspEnded (Some 1),
                      GraspStarted (Some 1)])
           empty_component) = Some [Some 2, Some 1]
   \<and> currently_grasping [GraspStarted (Some 1), GraspStarted (Some 2), GraspEnded (Some 1),
                         GraspStarted (Some 1)] (Some 2)"
proof -
  let ?cs = "[GraspStarted (Some 1), GraspStarted (Some 2), GraspEnded (Some 1),
              GraspStarted (Some 1)]"
  have e: "GrabPointers empty_component = []" by (simp add: empty_component_def)
  have a: "alternating ?cs" by code_simp
  have n: "starts_non_null ?cs" by (simp add: starts_non_null_def)
  have r: "map_option grasping_pointers
        (grasp_run translation_engine (on_world ?cs) empty_component) = Some [Some 2, Some 1]"
    by (simp add: on_world_def empty_component_def GraspStarted_Implementation_def
        GraspEnded_Implementation_def grasping_pointers_def Let_def
        UpdateComponentTickEnabled_def)
  from grasp_records_under_protocol [of empty_component "on_world ?cs" translation_engine] e a n
  obtain s' where s': "grasp_run translation_engine (on_world ?cs) empty_component = Some s'"
    and m: "\<forall>P. P \<in> set (grasping_pointers s') \<longleftrightarrow> currently_grasping ?cs P"
    by (auto simp: calls_on_world)
  from r s' have "grasping_pointers s' = [Some 2, Some 1]" by simp
  moreover from m have "Some 2 \<in> set (grasping_pointers s') \<longleftrightarrow> currently_grasping ?cs (Some 2)"
    by (rule spec)
  ultimately have "currently_grasping ?cs (Some 2)" by simp
  with e a n r show ?thesis by simp
qed

text \<open>
  The claim as stated fails. Two \<open>GraspStarted\<close> calls for pointer 1 leave two records
  of it. After one \<open>GraspEnded\<close> for it the list is empty, although pointer 1 then has
  more \<open>GraspStarted\<close> calls than \<open>GraspEnded\<close> calls. A \<open>GraspStarted\<close> call with a null
  pointer does not return.
\<close>

theorem grasp_records_counterexample:
  "map_option grasping_pointers
      (grasp_run translation_engine
         (on_world [GraspStarted (Some 1), GraspStarted (Some 1)]) empty_component)
     = Some [Some 1, Some 1]
   \<and> map_option (distinct \<circ> grasping_pointers)
      (grasp_run translation_engine
         (on_world [GraspStarted (Some 1), GraspStarted (Some 1)]) empty_component)
     = Some False
   \<and> map_option grasping_pointers
      (grasp_run translation_engine
         (on_world [GraspStarted (Some 1), GraspStarted (Some 1), GraspEnded (Some 1)])
         empty_component)
     = Some []
   \<and> currently_grasping [GraspStarted (Some 1), GraspStarted (Some 1), GraspEnded (Some 1)]
        (Some 1)
   \<and> grasp_run translation_engine (on_world [GraspStarted None]) empty_component = None"
  by (simp add: on_world_def empty_component_def GraspStarted_Implementation_def
      GraspEnded_Implementation_def grasping_pointers_def Let_def UpdateComponentTickEnabled_def
      currently_grasping_def grasps_started_def grasps_ended_def)

subsection \<open>Offsets between target and grab point\<close>

text \<open>
  \<^bold>\<open>C2\<close>. For every transform \<open>T\<close> and every record \<open>P\<close> whose pointer is not null,
  \<open>GetLocationOffset\<close> is the target location minus the grab location, and
  \<open>GetRotationOffset\<close> is the rotator of the quaternion product of the target rotation
  with the inverse of the grab rotation; the target is read from the pointer and no
  \<open>ensure\<close> fails. So the grab location moved by the location offset is the pointer's
  location.
\<close>

theorem offsets_of_valid_record:
  assumes "Pointer P = Some a"
  shows "GetLocationOffset E W T P
           = (fst (GetTargetLocation W P) - GetGrabLocation E T P, False)
       \<and> GetRotationOffset E W T P
           = (QuatRotator E
                (QuatMul E (RotatorQuat E (fst (GetTargetRotation W P)))
                   (RotatorQuat E (RotatorGetInverse E (GetGrabRotation E T P)))),
              False)
       \<and> GetTargetLocation W P = (ComponentLocation (Pointers W a), False)
       \<and> GetTargetRotation W P = (ComponentRotation (Pointers W a), False)
       \<and> GetGrabLocation E T P + fst (GetLocationOffset E W T P)
           = ComponentLocation (Pointers W a)"
proof -
  have add_diff: "g + (t - g) = t" for g t :: FVector
    by (cases g, cases t) (simp add: plus_FVector_def minus_FVector_def)
  from assms have loc: "GetTargetLocation W P = (ComponentLocation (Pointers W a), False)"
    and rot: "GetTargetRotation W P = (ComponentRotation (Pointers W a), False)"
    by (simp_all add: GetTargetLocation_def GetTargetRotation_def)
  from loc have off: "GetLocationOffset E W T P
      = (fst (GetTargetLocation W P) - GetGrabLocation E T P, False)"
    by (simp add: GetLocationOffset_def)
  from rot have "GetRotationOffset E W T P
      = (QuatRotator E
           (QuatMul E (RotatorQuat E (fst (GetTargetRotation W P)))
              (RotatorQuat E (RotatorGetInverse E (GetGrabRotation E T P)))),
         False)"
    by (simp add: GetRotationOffset_def)
  moreover from off loc have "GetGrabLocation E T P + fst (GetLocationOffset E W T P)
      = ComponentLocation (Pointers W a)"
    by (simp add: add_diff)
  ultimately show ?thesis using loc rot off by simp
qed

theorem offsets_of_valid_record_witness:
  "Pointer (grab_record (Some 4) 0 (translate 0 0 1)) = Some 4
   \<and> GetLocationOffset translation_engine sample_world (translate 1 1 1)
        (grab_record (Some 4) 0 (translate 0 0 1))
       = (FVector 4 2 3 - FVector 1 1 2, False)
   \<and> GetGrabLocation translation_engine (translate 1 1 1)
        (grab_record (Some 4) 0 (translate 0 0 1)) = FVector 1 1 2
   \<and> snd (GetRotationOffset translation_engine sample_world (translate 1 1 1)
        (grab_record (Some 4) 0 (translate 0 0 1))) = False"
  using offsets_of_valid_record [of "grab_record (Some 4) 0 (translate 0 0 1)" 4
      translation_engine sample_world "translate 1 1 1"]
  by (simp add: grab_record_def GetGrabLocation_def translation_engine_def translate_def
      sample_world_def FTransform_Identity_def plus_FVector_def)

subsection \<open>Stale records\<close>

text \<open>
  \<^bold>\<open>C6\<close>, as the source has it. For every record whose pointer is null, each target
  query fails its \<open>ensure\<close> and returns a default: \<open>GetTargetLocation\<close> the zero vector,
  \<open>GetTargetRotation\<close> the zero rotator, and \<open>GetTargetTransform\<close> the identity
  transform \<open>FTransform::Identity\<close>, whose translation is zero, whose rotation is the
  identity quaternion \<open>(0, 0, 0, 1)\<close> and whose scale is \<open>(1, 1, 1)\<close>: a default, but not a
  zero-valued transform.
\<close>

theorem stale_target_queries:
  assumes "Pointer P = None"
  shows "GetTargetLocation W P = (ZeroVector, True)
       \<and> GetTargetRotation W P = (ZeroRotator, True)
       \<and> GetTargetTransform W P = (FTransform_Identity, True)
       \<and> Translation FTransform_Identity = ZeroVector
       \<and> Rotation FTransform_Identity = FQuat 0 0 0 1
       \<and> Scale3D FTransform_Identity = FVector 1 1 1"
  using assms
  by (simp add: GetTargetLocation_def GetTargetRotation_def GetTargetTransform_def
      FTransform_Identity_def ZeroVector_def)

theorem stale_target_queries_witness:
  "Pointer (grab_record None 0 (translate 0 0 1)) = None
   \<and> GetTargetLocation sample_world (grab_record None 0 (translate 0 0 1))
       = (FVector 0 0 0, True)
   \<and> GetTargetRotation sample_world (grab_record None 0 (translate 0 0 1))
       = (FRotator 0 0 0, True)
   \<and> GetTargetTransform sample_world (grab_record None 0 (translate 0 0 1))
       = (translate 0 0 0, True)"
  using stale_target_queries [of "grab_record None 0 (translate 0 0 1)" sample_world]
  by (simp add: grab_record_def translate_def FTransform_Identity_def ZeroVector_def
      ZeroRotator_def)

text \<open>The transform returned for a stale record is not zero-valued: its scale is
  \<open>(1, 1, 1)\<close> and the \<open>W\<close> component of its rotation is 1.\<close>

theorem stale_target_transform_counterexample:
  "fst (GetTargetTransform sample_world (grab_record None 0 (translate 0 0 1)))
     \<noteq> \<lparr>Rotation = FQuat 0 0 0 0, Translation = ZeroVector, Scale3D = ZeroVector\<rparr>
   \<and> Scale3D (fst (GetTargetTransform sample_world (grab_record None 0 (translate 0 0 1))))
       = FVector 1 1 1
   \<and> QW (Rotation (fst (GetTargetTransform sample_world
        (grab_record None 0 (translate 0 0 1))))) = 1"
  by (simp add: GetTargetTransform_def grab_record_def FTransform_Identity_def ZeroVector_def)

subsection \<open>Centroids\<close>

text \<open>
  \<^bold>\<open>C7\<close>. For every transform, when the record list is empty,
  \<open>GetGrabPointCentroid\<close> and \<open>GetTargetCentroid\<close> return the zero vector (and no
  \<open>ensure\<close> fails). The division is guarded: the count itself is 0 there and dividing
  by it has no value, while both functions divide by \<open>max count 1\<close> and so, for every
  component \<open>t\<close>, return a vector.
\<close>

theorem centroid_of_no_pointers:
  assumes "GrabPointers s = []"
  shows "GetGrabPointCentroid E s T = Some ZeroVector
       \<and> GetTargetCentroid W s = (Some ZeroVector, False)
       \<and> div_FVector ZeroVector (real (length (GrabPointers s))) = None
       \<and> GetGrabPointCentroid E t T \<noteq> None
       \<and> fst (GetTargetCentroid W t) \<noteq> None"
proof -
  have zero: "div_FVector ZeroVector 1 = Some ZeroVector"
    by (simp add: div_FVector_def ZeroVector_def)
  have guard: "real (max (length (GrabPointers t)) 1) \<noteq> 0" by simp
  from assms zero have "GetGrabPointCentroid E s T = Some ZeroVector"
    by (simp add: GetGrabPointCentroid_def)
  moreover from assms zero have "GetTargetCentroid W s = (Some ZeroVector, False)"
    by (simp add: GetTargetCentroid_def)
  moreover from assms have "div_FVector ZeroVector (real (length (GrabPointers s))) = None"
    by (simp add: div_FVector_def)
  moreover from guard have "GetGrabPointCentroid E t T \<noteq> None"
    unfolding GetGrabPointCentroid_def div_FVector_def by (simp only: if_False) simp
  moreover from guard have "fst (GetTargetCentroid W t) \<noteq> None"
    unfolding GetTargetCentroid_def div_FVector_def
    by (simp only: if_False split_beta Let_def fst_conv) simp
  ultimately show ?thesis by blast
qed

theorem centroid_of_no_pointers_witness:
  "GrabPointers empty_component = []
   \<and> GetGrabPointCentroid translation_engine empty_component (translate 1 1 1)
       = Some (FVector 0 0 0)
   \<and> GetTargetCentroid sample_world empty_component = (Some (FVector 0 0 0), False)
   \<and> div_FVector (FVector 0 0 0) (real (length (GrabPointers empty_component))) = None
   \<and> GetGrabPointCentroid translation_engine
        (empty_component\<lparr>GrabPointers := [grab_record (Some 4) 0 (translate 0 0 1),
                                           grab_record (Some 6) 0 (translate 2 0 1)]\<rparr>)
        (translate 1 1 1) = Some (FVector 2 1 2)"
  using centroid_of_no_pointers [of empty_component translation_engine "translate 1 1 1"
      sample_world
      "empty_component\<lparr>GrabPointers := [grab_record (Some 4) 0 (translate 0 0 1),
                                         grab_record (Some 6) 0 (translate 2 0 1)]\<rparr>"]
  by (simp add: empty_component_def ZeroVector_def div_FVector_def GetGrabPointCentroid_def
      GetGrabLocation_def grab_record_def translation_engine_def translate_def
      FTransform_Identity_def plus_FVector_def)

subsection \<open>Lookup by pointer\<close>

lemma find_from_absent:
  "\<forall>j. i \<le> j \<and> j < length xs \<longrightarrow> Pointer (xs ! j) \<noteq> P \<Longrightarrow>
   FindGrabPointerInternal_from xs P i = (False, None, - 1)"
proof (induction xs P i rule: FindGrabPointerInternal_from.induct)
  case (1 xs P i)
  show ?case
  proof (cases "i < length xs")
    case True
    with "1.prems" have ne: "Pointer (xs ! i) \<noteq> P" by simp
    from "1.prems" have "\<forall>j. Suc i \<le> j \<and> j < length xs \<longrightarrow> Pointer (xs ! j) \<noteq> P" by simp
    with "1.IH" True ne have "FindGrabPointerInternal_from xs P (Suc i) = (False, None, - 1)"
      by blast
    with True ne show ?thesis by simp
  next
    case False
    then show ?thesis by simp
  qed
qed

lemma find_from_present:
  "i \<le> k \<Longrightarrow> k < length xs \<Longrightarrow> Pointer (xs ! k) = P \<Longrightarrow>
   \<forall>j. i \<le> j \<and> j < k \<longrightarrow> Pointer (xs ! j) \<noteq> P \<Longrightarrow>
   FindGrabPointerInternal_from xs P i = (True, Some (xs ! k), int k)"
proof (induction xs P i rule: FindGrabPointerInternal_from.induct)
  case (1 xs P i)
  show ?case
  proof (cases "i = k")
    case True
    with "1.prems" show ?thesis by simp
  next
    case False
    with "1.prems" have lt: "i < k" and ne: "Pointer (xs ! i) \<noteq> P" by auto
    from lt "1.prems" have il: "i < length xs" by simp
    from "1.prems" lt have "\<forall>j. Suc i \<le> j \<and> j < k \<longrightarrow> Pointer (xs ! j) \<noteq> P" by simp
    with "1.IH" [OF il ne] lt "1.prems"
    have "FindGrabPointerInternal_from xs P (Suc i) = (True, Some (xs ! k), int k)" by simp
    with il ne show ?thesis by simp
  qed
qed

lemma first_index:
  "P \<in> Pointer ` set xs \<Longrightarrow> \<exists>k<length xs. Pointer (xs ! k) = P \<and> (\<forall>j<k. Pointer (xs ! j) \<noteq> P)"
proof -
  assume "P \<in> Pointer ` set xs"
  then have ex: "\<exists>k. k < length xs \<and> Pointer (xs ! k) = P"
    by (auto simp: in_set_conv_nth)
  define k where "k = (LEAST k. k < length xs \<and> Pointer (xs ! k) = P)"
  from ex have "k < length xs \<and> Pointer (xs ! k) = P"
    unfolding k_def by (rule LeastI_ex)
  moreover have "\<forall>j<k. Pointer (xs ! j) \<noteq> P"
  proof (intro allI impI notI)
    fix j assume "j < k" "Pointer (xs ! j) = P"
    with \<open>k < length xs \<and> Pointer (xs ! k) = P\<close> have "j < length xs \<and> Pointer (xs ! j) = P" by simp
    then have "k \<le> j" unfolding k_def by (rule Least_le)
    with \<open>j < k\<close> show False by simp
  qed
  ultimately show ?thesis by blast
qed

text \<open>
  \<^bold>\<open>C9\<close>. For a pointer that no record of the list holds, \<open>FindGrabPointer\<close> sets
  \<open>Success\<close> to false and \<open>Index\<close> to \<open>-1\<close> and returns the caller's \<open>PointerData\<close> as it
  was. For a pointer that some record holds, it sets \<open>Success\<close> to true, \<open>Index\<close> to the
  position \<open>k\<close> of the first record with that pointer, and \<open>PointerData\<close> to that record.
\<close>

theorem FindGrabPointer_result:
  "(P \<notin> Pointer ` set (GrabPointers s) \<longrightarrow>
      FindGrabPointer s P PointerData = Some (False, PointerData, - 1))
   \<and> (P \<in> Pointer ` set (GrabPointers s) \<longrightarrow>
        (\<exists>k<length (GrabPointers s).
           Pointer (GrabPointers s ! k) = P \<and> (\<forall>j<k. Pointer (GrabPointers s ! j) \<noteq> P)
           \<and> FindGrabPointer s P PointerData = Some (True, GrabPointers s ! k, int k)))"
proof (intro conjI impI)
  assume "P \<notin> Pointer ` set (GrabPointers s)"
  then have "\<forall>j. 0 \<le> j \<and> j < length (GrabPointers s) \<longrightarrow> Pointer (GrabPointers s ! j) \<noteq> P"
    by (metis image_eqI nth_mem)
  then have "FindGrabPointerInternal_from (GrabPointers s) P 0 = (False, None, - 1)"
    by (rule find_from_absent)
  then show "FindGrabPointer s P PointerData = Some (False, PointerData, - 1)"
    by (simp add: FindGrabPointer_def FindGrabPointerInternal_def)
next
  assume "P \<in> Pointer ` set (GrabPointers s)"
  then obtain k where k: "k < length (GrabPointers s)" "Pointer (GrabPointers s ! k) = P"
    "\<forall>j<k. Pointer (GrabPointers s ! j) \<noteq> P"
    using first_index by blast
  then have "FindGrabPointerInternal_from (GrabPointers s) P 0
               = (True, Some (GrabPointers s ! k), int k)"
    by (intro find_from_present) auto
  then have "FindGrabPointer s P PointerData = Some (True, GrabPointers s ! k, int k)"
    by (simp add: FindGrabPointer_def FindGrabPointerInternal_def)
  with k show "\<exists>k<length (GrabPointers s).
           Pointer (GrabPointers s ! k) = P \<and> (\<forall>j<k. Pointer (GrabPointers s ! j) \<noteq> P)
           \<and> FindGrabPointer s P PointerData = Some (True, GrabPointers s ! k, int k)" by blast
qed

theorem FindGrabPointer_result_witness:
  "Some 9 \<notin> Pointer ` set [grab_record (Some 1) 0 (translate 0 0 0),
                              grab_record (Some 2) 1 (translate 0 0 0),
                              grab_record (Some 2) 2 (translate 0 0 0)]
   \<and> FindGrabPointer
        (empty_component\<lparr>GrabPointers := [grab_record (Some 1) 0 (translate 0 0 0),
                                           grab_record (Some 2) 1 (translate 0 0 0),
                                           grab_record (Some 2) 2 (translate 0 0 0)]\<rparr>)
        (Some 9) (grab_record None 7 (translate 0 0 0))
       = Some (False, grab_record None 7 (translate 0 0 0), - 1)
   \<and> Some 2 \<in> Pointer ` set [grab_record (Some 1) 0 (translate 0 0 0),
                                grab_record (Some 2) 1 (translate 0 0 0),
                                grab_record (Some 2) 2 (translate 0 0 0)]
   \<and> FindGrabPointer
        (empty_component\<lparr>GrabPointers := [grab_record (Some 1) 0 (translate 0 0 0),
                                           grab_record (Some 2) 1 (translate 0 0 0),
                                           grab_record (Some 2) 2 (translate 0 0 0)]\<rparr>)
        (Some 2) (grab_record None 7 (translate 0 0 0))
       = Some (True, grab_record (Some 2) 1 (translate 0 0 0), 1)"
  using FindGrabPointer_result
      [of "Some 9"
          "empty_component\<lparr>GrabPointers := [grab_record (Some 1) 0 (translate 0 0 0),
                                           grab_record (Some 2) 1 (translate 0 0 0),
                                           grab_record (Some 2) 2 (translate 0 0 0)]\<rparr>"
          "grab_record None 7 (translate 0 0 0)"]
    FindGrabPointer_result
      [of "Some 2"
          "empty_component\<lparr>GrabPointers := [grab_record (Some 1) 0 (translate 0 0 0),
                                           grab_record (Some 2) 1 (translate 0 0 0),
                                           grab_record (Some 2) 2 (translate 0 0 0)]\<rparr>"
          "grab_record None 7 (translate 0 0 0)"]
  by (simp add: grab_record_def FindGrabPointer_def FindGrabPointerInternal_def)

subsection \<open>Primary and secondary pointer\<close>

text \<open>
  \<^bold>\<open>C5\<close>. On a component with no record, after \<open>GraspStarted\<close> for pointer \<open>a\<close> and then
  for a different pointer \<open>b\<close>, \<open>GetPrimaryGrabPointer\<close> returns the record made for \<open>a\<close>
  and \<open>GetSecondaryGrabPointer\<close> the record made for \<open>b\<close>, both with \<open>Valid\<close> set; after
  \<open>GraspEnded\<close> for \<open>a\<close>, \<open>GetPrimaryGrabPointer\<close> returns the record of \<open>b\<close>. On any
  component \<open>t\<close> with fewer than one (two) records the primary (secondary) accessor
  clears \<open>Valid\<close> and leaves the caller's \<open>PointerData\<close> as it was.
\<close>

theorem primary_and_secondary:
  assumes "a \<noteq> b" and "GrabPointers s = []"
  shows "\<exists>s2 s3.
      grasp_run E [(W1, GraspStarted (Some a)), (W2, GraspStarted (Some b))] s = Some s2
    \<and> GetPrimaryGrabPointer s2 d =
        (True, grab_record (Some a) (TimeSeconds W1)
                 (TransformMul E (ComponentTransform (Pointers W1 a))
                    (TransformInverse E (ComponentToWorld W1))))
    \<and> GetSecondaryGrabPointer s2 d =
        (True, grab_record (Some b) (TimeSeconds W2)
                 (TransformMul E (ComponentTransform (Pointers W2 b))
                    (TransformInverse E (ComponentToWorld W2))))
    \<and> grasp_run E [(W3, GraspEnded (Some a))] s2 = Some s3
    \<and> GetPrimaryGrabPointer s3 d =
        (True, grab_record (Some b) (TimeSeconds W2)
                 (TransformMul E (ComponentTransform (Pointers W2 b))
                    (TransformInverse E (ComponentToWorld W2))))
    \<and> (length (GrabPointers t) < 1 \<longrightarrow> GetPrimaryGrabPointer t d = (False, d))
    \<and> (length (GrabPointers t) < 2 \<longrightarrow> GetSecondaryGrabPointer t d = (False, d))"
  using assms
  by (simp add: GraspStarted_Implementation_def GraspEnded_Implementation_def Let_def
      GetPrimaryGrabPointer_def GetSecondaryGrabPointer_def grab_record_def
      GrabPointers_UpdateComponentTickEnabled)

theorem primary_and_secondary_witness:
  "(1::nat) \<noteq> 2 \<and> GrabPointers empty_component = []
   \<and> map_option (\<lambda>s2. GetPrimaryGrabPointer s2 (grab_record None 0 (translate 0 0 0)))
        (grasp_run translation_engine
           (on_world [GraspStarted (Some 1), GraspStarted (Some 2)]) empty_component)
       = Some (True, grab_record (Some 1) 5 (translate 0 2 3))
   \<and> map_option (\<lambda>s2. GetSecondaryGrabPointer s2 (grab_record None 0 (translate 0 0 0)))
        (grasp_run translation_engine
           (on_world [GraspStarted (Some 1), GraspStarted (Some 2)]) empty_component)
       = Some (True, grab_record (Some 2) 5 (translate 1 2 3))
   \<and> map_option (\<lambda>s3. GetPrimaryGrabPointer s3 (grab_record None 0 (translate 0 0 0)))
        (grasp_run translation_engine
           (on_world [GraspStarted (Some 1), GraspStarted (Some 2), GraspEnded (Some 1)])
           empty_component)
       = Some (True, grab_record (Some 2) 5 (translate 1 2 3))
   \<and> GetPrimaryGrabPointer empty_component (grab_record None 0 (translate 0 0 0))
       = (False, grab_record None 0 (translate 0 0 0))
   \<and> GetSecondaryGrabPointer empty_component (grab_record None 0 (translate 0 0 0))
       = (False, grab_record None 0 (translate 0 0 0))"
  using primary_and_secondary [of 1 2 empty_component translation_engine sample_world
      sample_world "grab_record None 0 (translate 0 0 0)" sample_world empty_component]
  by (simp add: on_world_def empty_component_def GraspStarted_Implementation_def
      GraspEnded_Implementation_def Let_def UpdateComponentTickEnabled_def
      GetPrimaryGrabPointer_def GetSecondaryGrabPointer_def grab_record_def
      translation_engine_def sample_world_def translate_def FTransform_Identity_def
      ZeroVector_def plus_FVector_def minus_FVector_def)

section \<open>Properties of the pressable button actor\<close>

lemma array_at_pair:
  "array_at [x, y] 0 = Some x" "array_at [x, y] 1 = Some y"
  by (simp_all add: array_at_def)

subsection \<open>Starting a pulse\<close>

text \<open>
  \<^bold>\<open>C3\<close>. For every button and whatever \<open>IsPulsing\<close> computes: when \<open>IsPulsing\<close> is true,
  \<open>BeginPulse\<close> returns false and the actor is unchanged (no timer, no material, no
  call into the host); with \<open>IsPulsing\<close> read as the spec has it, that is so while the
  pulse rises and while it fades. When \<open>IsPulsing\<close> is false, the pointer is not null and
  the host hands back a material instance, \<open>BeginPulse\<close> returns true and has set both the
  pulse timer and the pulse fade timer to 0.
\<close>

theorem BeginPulse_guard:
  "(IsPulsing s \<longrightarrow> BeginPulse IsPulsing H P s = Some (False, s))
   \<and> ((0 \<le> PulseTimer s \<and> PulseTimer s \<le> 1) \<or> 1 < PulseTimer s \<longrightarrow>
        BeginPulse pulse_in_progress H P s = Some (False, s))
   \<and> (\<not> IsPulsing s \<and> P \<noteq> None \<and> FrontPlate_NewMaterialInstance H \<noteq> None \<longrightarrow>
        (\<exists>s'. BeginPulse IsPulsing H P s = Some (True, s')
              \<and> PulseTimer s' = 0 \<and> PulseFadeTimer s' = 0))"
proof (intro conjI impI)
  assume "IsPulsing s"
  then show "BeginPulse IsPulsing H P s = Some (False, s)"
    by (simp add: BeginPulse_def)
next
  assume "(0 \<le> PulseTimer s \<and> PulseTimer s \<le> 1) \<or> 1 < PulseTimer s"
  then have "pulse_in_progress s" by (auto simp: pulse_in_progress_def)
  then show "BeginPulse pulse_in_progress H P s = Some (False, s)"
    by (simp add: BeginPulse_def)
next
  assume h: "\<not> IsPulsing s \<and> P \<noteq> None \<and> FrontPlate_NewMaterialInstance H \<noteq> None"
  then obtain ptr inst where P: "P = Some ptr"
    and inst: "FrontPlate_NewMaterialInstance H = Some inst"
    by auto
  show "\<exists>s'. BeginPulse IsPulsing H P s = Some (True, s')
          \<and> PulseTimer s' = 0 \<and> PulseFadeTimer s' = 0"
  proof (cases "Hand ptr = Left")
    case True
    with h P inst show ?thesis
      by (simp add: BeginPulse_def call_def PulseInstanceNames_def PulsePositionNames_def
          array_at_pair)
  next
    case False
    with h P inst show ?thesis
      by (simp add: BeginPulse_def call_def PulseInstanceNames_def PulsePositionNames_def
          array_at_pair)
  qed
qed

theorem BeginPulse_guard_witness:
  "pulse_in_progress (sample_button\<lparr>PulseTimer := 1 / 2\<rparr>)
   \<and> BeginPulse pulse_in_progress sample_host (Some left_pointer)
        (sample_button\<lparr>PulseTimer := 1 / 2\<rparr>)
       = Some (False, sample_button\<lparr>PulseTimer := 1 / 2\<rparr>)
   \<and> pulse_in_progress (sample_button\<lparr>PulseTimer := 3 / 2, PulseFadeTimer := 1 / 2\<rparr>)
   \<and> BeginPulse pulse_in_progress sample_host (Some left_pointer)
        (sample_button\<lparr>PulseTimer := 3 / 2, PulseFadeTimer := 1 / 2\<rparr>)
       = Some (False, sample_button\<lparr>PulseTimer := 3 / 2, PulseFadeTimer := 1 / 2\<rparr>)
   \<and> \<not> pulse_in_progress sample_button
   \<and> Some left_pointer \<noteq> None
   \<and> FrontPlate_NewMaterialInstance sample_host \<noteq> None
   \<and> map_option fst (BeginPulse pulse_in_progress sample_host (Some left_pointer) sample_button)
       = Some True
   \<and> map_option (PulseTimer \<circ> snd)
        (BeginPulse pulse_in_progress sample_host (Some left_pointer) sample_button) = Some 0
   \<and> map_option (PulseFadeTimer \<circ> snd)
        (BeginPulse pulse_in_progress sample_host (Some left_pointer) sample_button) = Some 0"
  using BeginPulse_guard [of pulse_in_progress "sample_button\<lparr>PulseTimer := 1 / 2\<rparr>"
      sample_host "Some left_pointer"]
    BeginPulse_guard [of pulse_in_progress
      "sample_button\<lparr>PulseTimer := 3 / 2, PulseFadeTimer := 1 / 2\<rparr>"
      sample_host "Some left_pointer"]
    BeginPulse_guard [of pulse_in_progress sample_button sample_host "Some left_pointer"]
  by (auto simp add: pulse_in_progress_def sample_button_def sample_host_def)

subsection \<open>The rates of the pulse timers\<close>

text \<open>
  \<^bold>\<open>C8\<close>. Take an actor whose material instance is set and whose \<open>MaterialIndex\<close> is 0
  or 1, and a host that hands back a material instance, so that \<open>AnimatePulse\<close> returns.
  While the pulse rises (\<open>PulseTimer\<close> in \<open>[0, 1]\<close>) one update adds
  \<open>(1 / PulseTime) * DeltaTime\<close> to \<open>PulseTimer\<close>; while it fades (\<open>PulseTimer\<close> above 1,
  \<open>PulseFadeTimer\<close> at most 1) one update adds \<open>(1 / PulseFadeTime) * DeltaTime\<close> to
  \<open>PulseFadeTimer\<close> and leaves \<open>PulseTimer\<close>. When the configured duration is zero or
  negative the divisor is 1 instead: the timer advances by \<open>(1 / 1) * DeltaTime\<close>, so no
  update divides by a value that is not positive.
\<close>

theorem AnimatePulse_rates:
  assumes inst: "PulseMaterialInstance s \<noteq> None"
    and new: "FrontPlate_NewMaterialInstance H \<noteq> None"
    and idx: "MaterialIndex s = 0 \<or> MaterialIndex s = 1"
  shows "(0 \<le> PulseTimer s \<and> PulseTimer s \<le> 1 \<longrightarrow>
           (\<exists>s'. AnimatePulse H DeltaTime s = Some (False, s')
              \<and> (0 < PulseTime (Visuals (ButtonBrush s)) \<longrightarrow>
                    PulseTimer s'
                      = PulseTimer s + (1 / PulseTime (Visuals (ButtonBrush s))) * DeltaTime)
              \<and> (PulseTime (Visuals (ButtonBrush s)) \<le> 0 \<longrightarrow>
                    PulseTimer s' = PulseTimer s + (1 / 1) * DeltaTime)))
       \<and> (1 < PulseTimer s \<and> PulseFadeTimer s \<le> 1 \<longrightarrow>
           (\<exists>s'. AnimatePulse H DeltaTime s = Some (False, s')
              \<and> PulseTimer s' = PulseTimer s
              \<and> (0 < PulseFadeTime (Visuals (ButtonBrush s)) \<longrightarrow>
                    PulseFadeTimer s'
                      = PulseFadeTimer s
                        + (1 / PulseFadeTime (Visuals (ButtonBrush s))) * DeltaTime)
              \<and> (PulseFadeTime (Visuals (ButtonBrush s)) \<le> 0 \<longrightarrow>
                    PulseFadeTimer s' = PulseFadeTimer s + (1 / 1) * DeltaTime)))"
proof -
  from inst obtain i where i: "PulseMaterialInstance s = Some i" by auto
  from new obtain n where n: "FrontPlate_NewMaterialInstance H = Some n" by auto
  from idx have
    "array_at PulseValueNames (MaterialIndex s) \<noteq> None"
    "array_at PulseFadeNames (MaterialIndex s) \<noteq> None"
    "array_at PulseInstanceFadeNames (MaterialIndex s) \<noteq> None"
    by (auto simp: PulseValueNames_def PulseFadeNames_def PulseInstanceFadeNames_def
        array_at_pair)
  then obtain vn fn fin where
    "array_at PulseValueNames (MaterialIndex s) = Some vn"
    "array_at PulseFadeNames (MaterialIndex s) = Some fn"
    "array_at PulseInstanceFadeNames (MaterialIndex s) = Some fin"
    by auto
  with i n show ?thesis
    by (simp add: AnimatePulse_def call_def Let_def)
qed

theorem AnimatePulse_rates_witness:
  "PulseMaterialInstance (sample_button\<lparr>PulseTimer := 1 / 2, PulseMaterialInstance := Some 7\<rparr>)
     \<noteq> None
   \<and> FrontPlate_NewMaterialInstance sample_host \<noteq> None
   \<and> MaterialIndex (sample_button\<lparr>PulseTimer := 1 / 2, PulseMaterialInstance := Some 7\<rparr>) = 0
   \<and> PulseTimer (sample_button\<lparr>PulseTimer := 1 / 2, PulseMaterialInstance := Some 7\<rparr>)
       = 1 / 2
   \<and> PulseTime (Visuals (ButtonBrush sample_button)) = 1 / 4
   \<and> map_option (PulseTimer \<circ> snd)
        (AnimatePulse sample_host (1 / 16)
           (sample_button\<lparr>PulseTimer := 1 / 2, PulseMaterialInstance := Some 7\<rparr>))
       = Some (3 / 4)
   \<and> PulseFadeTime (Visuals (ButtonBrush sample_button)) = 0
   \<and> map_option (PulseFadeTimer \<circ> snd)
        (AnimatePulse sample_host (1 / 16)
           (sample_button\<lparr>PulseTimer := 5 / 4, PulseFadeTimer := 1 / 2,
              PulseMaterialInstance := Some 7\<rparr>))
       = Some (9 / 16)"
  using AnimatePulse_rates
      [of "sample_button\<lparr>PulseTimer := 1 / 2, PulseMaterialInstance := Some 7\<rparr>"
          sample_host "1 / 16"]
    AnimatePulse_rates
      [of "sample_button\<lparr>PulseTimer := 5 / 4, PulseFadeTimer := 1 / 2,
             PulseMaterialInstance := Some 7\<rparr>"
          sample_host "1 / 16"]
  by (auto simp add: sample_button_def sample_host_def sample_brush_def)

subsection \<open>The size setters\<close>

text \<open>
  \<^bold>\<open>C10\<close>. For every size vector \<open>Size\<close>, \<open>SetSize Size\<close> is \<open>SetMillimeterSize\<close> of
  \<open>Size * 10\<close>: the same actor results, with the same stored size and the same calls
  into the host. Both setters leave the actor as it is (stored size and host calls)
  when the millimeter size they would store equals the stored one; otherwise the new
  size is stored and the visuals are constructed again, which makes at least seven calls
  on the components.
\<close>

theorem SetSize_as_SetMillimeterSize:
  "SetSize GetSize H Size s = SetMillimeterSize GetSize H (scale_FVector Size 10) s
   \<and> (MillimeterSize s = scale_FVector Size 10 \<longrightarrow> SetSize GetSize H Size s = s)
   \<and> (MillimeterSize s = MSize \<longrightarrow> SetMillimeterSize GetSize H MSize s = s)
   \<and> (MillimeterSize s \<noteq> scale_FVector Size 10 \<longrightarrow>
         SetSize GetSize H Size s
           = ConstructVisuals GetSize H (s\<lparr>MillimeterSize := scale_FVector Size 10\<rparr>)
       \<and> MillimeterSize (SetSize GetSize H Size s) = scale_FVector Size 10
       \<and> length (ActorCalls (SetSize GetSize H Size s)) \<ge> length (ActorCalls s) + 7)"
proof (intro conjI impI)
  show "SetSize GetSize H Size s = SetMillimeterSize GetSize H (scale_FVector Size 10) s"
    by (simp add: SetSize_def SetMillimeterSize_def Let_def)
next
  assume "MillimeterSize s = scale_FVector Size 10"
  then show "SetSize GetSize H Size s = s"
    by (simp add: SetSize_def Let_def)
next
  assume "MillimeterSize s = MSize"
  then show "SetMillimeterSize GetSize H MSize s = s"
    by (simp add: SetMillimeterSize_def)
next
  assume ne: "MillimeterSize s \<noteq> scale_FVector Size 10"
  then show run: "SetSize GetSize H Size s
      = ConstructVisuals GetSize H (s\<lparr>MillimeterSize := scale_FVector Size 10\<rparr>)"
    by (simp add: SetSize_def Let_def)
  show "MillimeterSize (SetSize GetSize H Size s) = scale_FVector Size 10"
    unfolding run by (simp add: ConstructVisuals_def call_def Let_def)
  show "length (ActorCalls (SetSize GetSize H Size s)) \<ge> length (ActorCalls s) + 7"
    unfolding run by (simp add: ConstructVisuals_def call_def Let_def)
qed

theorem SetSize_as_SetMillimeterSize_witness:
  "MillimeterSize sample_button = scale_FVector (FVector (16 / 10) (32 / 10) (32 / 10)) 10
   \<and> SetSize tenth_of_millimeters sample_host (FVector (16 / 10) (32 / 10) (32 / 10))
        sample_button = sample_button
   \<and> SetMillimeterSize tenth_of_millimeters sample_host (FVector 16 32 32) sample_button
       = sample_button
   \<and> MillimeterSize sample_button \<noteq> scale_FVector (FVector 2 3 3) 10
   \<and> MillimeterSize (SetSize tenth_of_millimeters sample_host (FVector 2 3 3) sample_button)
       = FVector 20 30 30
   \<and> SetSize tenth_of_millimeters sample_host (FVector 2 3 3) sample_button
       = SetMillimeterSize tenth_of_millimeters sample_host (FVector 20 30 30) sample_button
   \<and> length (ActorCalls
        (SetSize tenth_of_millimeters sample_host (FVector 2 3 3) sample_button)) = 11"
  using SetSize_as_SetMillimeterSize
      [of tenth_of_millimeters sample_host "FVector (16 / 10) (32 / 10) (32 / 10)"
          sample_button "FVector 16 32 32"]
    SetSize_as_SetMillimeterSize
      [of tenth_of_millimeters sample_host "FVector 2 3 3" sample_button "FVector 16 32 32"]
  by (simp add: sample_button_def sample_brush_def scale_FVector_def SetSize_def
      SetMillimeterSize_def ConstructVisuals_def call_def Let_def)

subsection \<open>float32 rounding\<close>

text \<open>Rounding to the nearest float32 is monotone, odd and idempotent, and below 1 it
  moves a value by at most half of \<open>2 ^ -24\<close>.\<close>

lemma pow2_powr: "pow2 e = 2 powr (of_int e)"
  by (simp add: pow2_def powr_int)

lemma pow2_pos: "0 < pow2 e"
  by (simp add: pow2_def)

lemma pow2_add: "pow2 (a + b) = pow2 a * pow2 b"
  by (simp add: pow2_powr powr_add)

lemma pow2_mono: "a \<le> b \<Longrightarrow> pow2 a \<le> pow2 b"
  by (simp add: pow2_powr)

lemma pow2_strict_mono: "a < b \<Longrightarrow> pow2 a < pow2 b"
  by (simp add: pow2_powr)

lemma pow2_nat: "pow2 (int n) = 2 ^ n"
  by (simp add: pow2_def)

lemma rhe_floor: "of_int \<lfloor>x\<rfloor> \<le> (of_int (round_half_even x) :: real)"
  by (simp add: round_half_even_def Let_def)

lemma rhe_le: "round_half_even x \<le> \<lfloor>x\<rfloor> + 1"
  by (simp add: round_half_even_def Let_def)

lemma rhe_ge: "\<lfloor>x\<rfloor> \<le> round_half_even x"
  by (simp add: round_half_even_def Let_def)

lemma rhe_error: "\<bar>of_int (round_half_even x) - x\<bar> \<le> 1 / 2"
  unfolding round_half_even_def Let_def
  by (auto simp: abs_le_iff)

lemma rhe_of_int: "round_half_even (of_int n) = n"
  by (simp add: round_half_even_def Let_def)

lemma rhe_mono:
  assumes "x \<le> y"
  shows "round_half_even x \<le> round_half_even y"
proof (cases "\<lfloor>x\<rfloor> = \<lfloor>y\<rfloor>")
  case True
  with assms have "x - of_int \<lfloor>x\<rfloor> \<le> y - of_int \<lfloor>y\<rfloor>" by simp
  with True show ?thesis
    by (auto simp: round_half_even_def Let_def)
next
  case False
  with assms have "\<lfloor>x\<rfloor> < \<lfloor>y\<rfloor>" by (simp add: floor_mono order.not_eq_order_implies_strict)
  then have "round_half_even x \<le> \<lfloor>y\<rfloor>" using rhe_le [of x] by linarith
  then show ?thesis using rhe_ge [of y] by linarith
qed

lemma rhe_uminus: "round_half_even (- x) = - round_half_even x"
proof (cases "x = of_int \<lfloor>x\<rfloor>")
  case True
  then obtain n :: int where "x = of_int n" by blast
  then have "- x = of_int (- n)" by simp
  then show ?thesis using \<open>x = of_int n\<close> by (simp only: rhe_of_int)
next
  case False
  have "of_int \<lfloor>x\<rfloor> \<le> x" by (rule of_int_floor_le)
  moreover from False have "of_int \<lfloor>x\<rfloor> \<noteq> x" by (rule not_sym)
  ultimately have "of_int \<lfloor>x\<rfloor> < x" by (rule order.strict_iff_order [THEN iffD2, OF conjI])
  then have r: "0 < x - of_int \<lfloor>x\<rfloor>" by simp
  have r1: "x - of_int \<lfloor>x\<rfloor> < 1" by linarith
  have fl: "\<lfloor>- x\<rfloor> = - \<lfloor>x\<rfloor> - 1"
    using r r1 by (intro floor_unique) simp_all
  show ?thesis
    unfolding round_half_even_def Let_def fl
    using r by (auto simp: algebra_simps)
qed

lemma exponent_ge: "- 126 \<le> float32_exponent x"
  by (simp add: float32_exponent_def)

lemma exponent_uminus: "float32_exponent (- x) = float32_exponent x"
  by (simp add: float32_exponent_def)

lemma exponent_upper: "\<bar>x\<bar> < pow2 (float32_exponent x + 1)"
proof -
  define n where "n = \<lfloor>\<bar>x\<bar> * 2 ^ 149\<rfloor>"
  define b where "b = bitlen n"
  have n0: "0 \<le> n" by (simp add: n_def)
  have b0: "0 \<le> b" by (simp add: b_def bitlen_nonneg)
  have "n < 2 ^ nat b"
  proof (cases "n = 0")
    case True
    then show ?thesis by simp
  next
    case False
    with n0 have "0 < n" by simp
    then show ?thesis unfolding b_def using bitlen_bounds by blast
  qed
  then have "n + 1 \<le> 2 ^ nat b" by simp
  then have "(of_int (n + 1) :: real) \<le> of_int (2 ^ nat b)" by (simp only: of_int_le_iff)
  then have le: "of_int n + 1 \<le> (2 ^ nat b :: real)" by simp
  have "\<bar>x\<bar> * 2 ^ 149 < of_int n + 1" unfolding n_def by linarith
  with le have "\<bar>x\<bar> * 2 ^ 149 < pow2 b" using b0 by (simp add: pow2_def)
  then have "\<bar>x\<bar> < pow2 b / 2 ^ 149" by (simp add: field_simps)
  also have "pow2 b / 2 ^ 149 = pow2 (b - 149)"
  proof -
    have "pow2 (b - 149) * 2 ^ 149 = pow2 (b - 149) * pow2 149" by (simp add: pow2_def)
    also have "\<dots> = pow2 b" by (simp flip: pow2_add)
    finally show ?thesis by (simp add: field_simps)
  qed
  also have "pow2 (b - 149) \<le> pow2 (float32_exponent x + 1)"
    by (rule pow2_mono) (simp add: float32_exponent_def b_def n_def)
  finally show ?thesis .
qed

lemma exponent_lower:
  assumes "- 126 < float32_exponent x"
  shows "pow2 (float32_exponent x) \<le> \<bar>x\<bar>"
proof -
  define n where "n = \<lfloor>\<bar>x\<bar> * 2 ^ 149\<rfloor>"
  define b where "b = bitlen n"
  from assms have e: "float32_exponent x = b - 150" and b: "24 < b"
    by (auto simp: float32_exponent_def b_def n_def max_def split: if_splits)
  have "0 < n"
  proof (rule ccontr)
    assume "\<not> 0 < n"
    then have "bitlen n = 0" by (simp add: bitlen_eq_zero_iff)
    with b show False by (simp add: b_def)
  qed
  then have "2 ^ nat (b - 1) \<le> n" unfolding b_def using bitlen_bounds by blast
  then have "(of_int (2 ^ nat (b - 1)) :: real) \<le> of_int n" by (simp only: of_int_le_iff)
  also have "of_int n \<le> \<bar>x\<bar> * 2 ^ 149" unfolding n_def by simp
  finally have "pow2 (b - 1) \<le> \<bar>x\<bar> * 2 ^ 149" using b by (simp add: pow2_def)
  then have "pow2 (b - 1) / 2 ^ 149 \<le> \<bar>x\<bar>" by (simp add: field_simps)
  moreover have "pow2 (b - 1) / 2 ^ 149 = pow2 (b - 150)"
  proof -
    have "pow2 (b - 150) * 2 ^ 149 = pow2 (b - 150) * pow2 149" by (simp add: pow2_def)
    also have "\<dots> = pow2 (b - 1)" by (simp flip: pow2_add)
    finally show ?thesis by (simp add: field_simps)
  qed
  ultimately show ?thesis using e by simp
qed

lemma exponent_unique:
  assumes "- 126 \<le> e" and "- 126 < e \<Longrightarrow> pow2 e \<le> \<bar>x\<bar>" and "\<bar>x\<bar> < pow2 (e + 1)"
  shows "float32_exponent x = e"
proof (rule ccontr)
  assume ne: "float32_exponent x \<noteq> e"
  show False
  proof (cases "float32_exponent x < e")
    case True
    with exponent_ge [of x] have "- 126 < e" by linarith
    with assms have "pow2 e \<le> \<bar>x\<bar>" by simp
    also have "\<bar>x\<bar> < pow2 (float32_exponent x + 1)" by (rule exponent_upper)
    also have "\<dots> \<le> pow2 e" using True by (intro pow2_mono) simp
    finally show False by simp
  next
    case False
    with ne have gt: "e < float32_exponent x" by simp
    with assms have "- 126 < float32_exponent x" by linarith
    then have "pow2 (float32_exponent x) \<le> \<bar>x\<bar>" by (rule exponent_lower)
    also have "\<bar>x\<bar> < pow2 (e + 1)" by fact
    also have "\<dots> \<le> pow2 (float32_exponent x)" using gt by (intro pow2_mono) simp
    finally show False by simp
  qed
qed

lemma exponent_mono:
  assumes "\<bar>x\<bar> \<le> \<bar>y\<bar>"
  shows "float32_exponent x \<le> float32_exponent y"
proof (rule ccontr)
  assume "\<not> float32_exponent x \<le> float32_exponent y"
  then have lt: "float32_exponent y < float32_exponent x" by simp
  with exponent_ge [of y] have "- 126 < float32_exponent x" by linarith
  then have "pow2 (float32_exponent x) \<le> \<bar>x\<bar>" by (rule exponent_lower)
  also note assms
  also have "\<bar>y\<bar> < pow2 (float32_exponent y + 1)" by (rule exponent_upper)
  also have "\<dots> \<le> pow2 (float32_exponent x)" using lt by (intro pow2_mono) simp
  finally show False by simp
qed


lemma round32_uminus: "round32 (- x) = - round32 x"
  by (simp add: round32_def Let_def exponent_uminus rhe_uminus)

lemma round32_nonneg:
  assumes "0 \<le> x"
  shows "0 \<le> round32 x"
proof -
  let ?u = "pow2 (float32_exponent x - 23)"
  have "0 \<le> x / ?u" using assms pow2_pos [of "float32_exponent x - 23"] by simp
  then have "round_half_even 0 \<le> round_half_even (x / ?u)" by (rule rhe_mono)
  then have "0 \<le> round_half_even (x / ?u)" using rhe_of_int [of 0] by simp
  then show ?thesis
    using pow2_pos [of "float32_exponent x - 23"] by (simp add: round32_def Let_def)
qed

lemma pow2_split:
  "pow2 (e - 23) * 16777216 = pow2 (e + 1)" "pow2 (e - 23) * 8388608 = pow2 e"
proof -
  have "pow2 (e - 23) * pow2 24 = pow2 (e - 23 + 24)" by (simp only: pow2_add)
  moreover have "e - 23 + 24 = e + 1" by simp
  moreover have "pow2 24 = 16777216" by (simp add: pow2_def)
  ultimately show "pow2 (e - 23) * 16777216 = pow2 (e + 1)" by simp
  have "pow2 (e - 23) * pow2 23 = pow2 (e - 23 + 23)" by (simp only: pow2_add)
  moreover have "pow2 23 = 8388608" by (simp add: pow2_def)
  ultimately show "pow2 (e - 23) * 8388608 = pow2 e" by simp
qed

lemma mantissa_upper:
  assumes "0 \<le> x"
  shows "round_half_even (x / pow2 (float32_exponent x - 23)) \<le> 16777216"
proof -
  let ?u = "pow2 (float32_exponent x - 23)"
  have u: "0 < ?u" by (rule pow2_pos)
  have "x < pow2 (float32_exponent x + 1)" using exponent_upper [of x] assms by simp
  then have "x < ?u * 16777216" by (simp add: pow2_split)
  then have "x / ?u \<le> 16777216" using u by (simp add: field_simps)
  then have "x / ?u \<le> of_int (16777216)" by simp
  then have "round_half_even (x / ?u) \<le> round_half_even (of_int (16777216))" by (rule rhe_mono)
  then show ?thesis by (simp only: rhe_of_int)
qed

lemma mantissa_lower:
  assumes "0 \<le> x" and "- 126 < float32_exponent x"
  shows "8388608 \<le> round_half_even (x / pow2 (float32_exponent x - 23))"
proof -
  let ?u = "pow2 (float32_exponent x - 23)"
  have u: "0 < ?u" by (rule pow2_pos)
  have "pow2 (float32_exponent x) \<le> x" using exponent_lower [OF assms(2)] assms(1) by simp
  then have "?u * 8388608 \<le> x" by (simp add: pow2_split)
  then have "8388608 \<le> x / ?u" using u by (simp add: field_simps)
  then have "of_int (8388608) \<le> x / ?u" by simp
  then have "round_half_even (of_int (8388608)) \<le> round_half_even (x / ?u)" by (rule rhe_mono)
  then show ?thesis by (simp only: rhe_of_int)
qed

lemma round32_upper:
  assumes "0 \<le> x"
  shows "round32 x \<le> pow2 (float32_exponent x + 1)"
proof -
  let ?u = "pow2 (float32_exponent x - 23)"
  have u: "0 < ?u" by (rule pow2_pos)
  have "(of_int (round_half_even (x / ?u)) :: real) \<le> of_int (16777216)"
    using mantissa_upper [OF assms] by (simp only: of_int_le_iff)
  then have "?u * of_int (round_half_even (x / ?u)) \<le> ?u * 16777216"
    using u by simp
  then show ?thesis by (simp add: round32_def Let_def pow2_split)
qed

lemma round32_lower:
  assumes "0 \<le> x" and "- 126 < float32_exponent x"
  shows "pow2 (float32_exponent x) \<le> round32 x"
proof -
  let ?u = "pow2 (float32_exponent x - 23)"
  have u: "0 < ?u" by (rule pow2_pos)
  have "(of_int (8388608) :: real) \<le> of_int (round_half_even (x / ?u))"
    using mantissa_lower [OF assms] by (simp only: of_int_le_iff)
  then have "?u * 8388608 \<le> ?u * of_int (round_half_even (x / ?u))"
    using u by simp
  then show ?thesis by (simp add: round32_def Let_def pow2_split)
qed

lemma round32_grid:
  assumes "float32_exponent x = e" and "x = pow2 (e - 23) * of_int n"
  shows "round32 x = x"
proof -
  have "x / pow2 (e - 23) = of_int n" using assms(2) pow2_pos [of "e - 23"] by simp
  then show ?thesis using assms by (simp add: round32_def Let_def rhe_of_int)
qed

lemma round32_mono_nonneg:
  assumes "0 \<le> x" and "x \<le> y"
  shows "round32 x \<le> round32 y"
proof -
  from assms have y: "0 \<le> y" by simp
  from assms have "\<bar>x\<bar> \<le> \<bar>y\<bar>" by simp
  then have le: "float32_exponent x \<le> float32_exponent y" by (rule exponent_mono)
  show ?thesis
  proof (cases "float32_exponent x = float32_exponent y")
    case True
    let ?u = "pow2 (float32_exponent y - 23)"
    have u: "0 < ?u" by (rule pow2_pos)
    then have "x / ?u \<le> y / ?u" using assms(2) by (simp add: divide_right_mono)
    then have "round_half_even (x / ?u) \<le> round_half_even (y / ?u)" by (rule rhe_mono)
    then have "(of_int (round_half_even (x / ?u)) :: real) \<le> of_int (round_half_even (y / ?u))"
      by (simp only: of_int_le_iff)
    then have "?u * of_int (round_half_even (x / ?u)) \<le> ?u * of_int (round_half_even (y / ?u))"
      using u by simp
    then show ?thesis using True by (simp add: round32_def Let_def)
  next
    case False
    with le have lt: "float32_exponent x < float32_exponent y" by simp
    with exponent_ge [of x] have low: "- 126 < float32_exponent y" by linarith
    have "round32 x \<le> pow2 (float32_exponent x + 1)" using assms(1) by (rule round32_upper)
    also have "\<dots> \<le> pow2 (float32_exponent y)" using lt by (intro pow2_mono) simp
    also have "\<dots> \<le> round32 y" using y low by (rule round32_lower)
    finally show ?thesis .
  qed
qed

lemma round32_mono:
  assumes "x \<le> y"
  shows "round32 x \<le> round32 y"
proof (cases "0 \<le> x")
  case True
  then show ?thesis using assms by (rule round32_mono_nonneg)
next
  case False
  then have x: "x \<le> 0" by simp
  show ?thesis
  proof (cases "0 \<le> y")
    case True
    from x have "0 \<le> round32 (- x)" by (intro round32_nonneg) simp
    then have "round32 x \<le> 0" by (simp add: round32_uminus)
    also have "0 \<le> round32 y" using True by (rule round32_nonneg)
    finally show ?thesis .
  next
    case False
    with assms have "0 \<le> - y" "- y \<le> - x" by simp_all
    then have "round32 (- y) \<le> round32 (- x)" by (rule round32_mono_nonneg)
    then show ?thesis by (simp add: round32_uminus)
  qed
qed

lemma round32_idem_nonneg:
  assumes "0 \<le> x"
  shows "round32 (round32 x) = round32 x"
proof -
  define e where "e = float32_exponent x"
  define n where "n = round_half_even (x / pow2 (e - 23))"
  have g: "round32 x = pow2 (e - 23) * of_int n"
    by (simp add: round32_def Let_def e_def n_def)
  have g0: "0 \<le> round32 x" using assms by (rule round32_nonneg)
  have e126: "- 126 \<le> e" unfolding e_def by (rule exponent_ge)
  have up: "round32 x \<le> pow2 (e + 1)" unfolding e_def using assms by (rule round32_upper)
  show ?thesis
  proof (cases "round32 x = pow2 (e + 1)")
    case True
    have "float32_exponent (round32 x) = e + 1"
    proof (rule exponent_unique)
      show "- 126 \<le> e + 1" using e126 by simp
      show "pow2 (e + 1) \<le> \<bar>round32 x\<bar>" using True g0 by simp
      show "\<bar>round32 x\<bar> < pow2 (e + 1 + 1)"
        using True g0 pow2_strict_mono [of "e + 1" "e + 1 + 1"] by simp
    qed
    moreover have "round32 x = pow2 (e + 1 - 23) * of_int (8388608)"
      using True pow2_split(2) [of "e + 1"] by simp
    ultimately show ?thesis by (rule round32_grid)
  next
    case False
    with up have lt: "round32 x < pow2 (e + 1)" by simp
    have "float32_exponent (round32 x) = e"
    proof (rule exponent_unique)
      show "- 126 \<le> e" by fact
      show "\<bar>round32 x\<bar> < pow2 (e + 1)" using lt g0 by simp
      show "pow2 e \<le> \<bar>round32 x\<bar>" if "- 126 < e"
        using round32_lower [OF assms] that g0 unfolding e_def by simp
    qed
    then show ?thesis using g by (rule round32_grid)
  qed
qed

lemma round32_idem: "round32 (round32 x) = round32 x"
proof (cases "0 \<le> x")
  case True
  then show ?thesis by (rule round32_idem_nonneg)
next
  case False
  then have "0 \<le> - x" by simp
  then have "round32 (round32 (- x)) = round32 (- x)" by (rule round32_idem_nonneg)
  then show ?thesis by (simp add: round32_uminus)
qed

lemma round32_0: "round32 0 = 0"
  by (simp add: round32_def Let_def rhe_of_int [of 0, simplified])

lemma round32_1: "round32 1 = 1"
  by code_simp

lemma round32_half_ulp:
  assumes "\<bar>x\<bar> < 1"
  shows "\<bar>round32 x - x\<bar> \<le> 1 / 2 ^ 25"
proof -
  let ?e = "float32_exponent x"
  let ?u = "pow2 (?e - 23)"
  have u: "0 < ?u" by (rule pow2_pos)
  have "?e \<le> - 1"
  proof (rule ccontr)
    assume "\<not> ?e \<le> - 1"
    then have "0 \<le> ?e" by simp
    then have "- 126 < ?e" by simp
    then have "pow2 ?e \<le> \<bar>x\<bar>" by (rule exponent_lower)
    moreover have "pow2 0 \<le> pow2 ?e" using \<open>0 \<le> ?e\<close> by (rule pow2_mono)
    ultimately show False using assms by (simp add: pow2_def)
  qed
  then have "?u \<le> pow2 (- 24)" by (intro pow2_mono) simp
  then have ub: "?u \<le> 1 / 16777216" by (simp add: pow2_def)
  have "round32 x - x = ?u * (of_int (round_half_even (x / ?u)) - x / ?u)"
    using u by (simp add: round32_def Let_def algebra_simps)
  then have "\<bar>round32 x - x\<bar> = ?u * \<bar>of_int (round_half_even (x / ?u)) - x / ?u\<bar>"
    using u by (simp add: abs_mult)
  also have "\<dots> \<le> ?u * (1 / 2)"
    using rhe_error [of "x / ?u"] u by (intro mult_left_mono) simp_all
  also have "\<dots> \<le> (1 / 16777216) * (1 / 2)" using ub by simp
  finally show ?thesis by simp
qed

lemma round32_minus_1: "round32 (- 1) = - 1"
  by (simp add: round32_uminus round32_1)

lemma round32_nonpos: "x \<le> 0 \<Longrightarrow> round32 x \<le> 0"
  using round32_mono [of x 0] by (simp add: round32_0)

lemma round32_le_float: "x \<le> t \<Longrightarrow> is_float32 t \<Longrightarrow> round32 x \<le> t"
  using round32_mono [of x t] by (simp add: is_float32_def)

lemma is_float32_round32: "is_float32 (round32 x)"
  by (simp add: is_float32_def round32_idem)

lemma is_float32_Clamp: "is_float32 (Clamp (round32 x) 0 1)"
  by (simp add: Clamp_def is_float32_def round32_idem round32_0 round32_1)

subsection \<open>The focus timer\<close>

lemma Clamp_unit: "0 \<le> Clamp x 0 1 \<and> Clamp x 0 1 \<le> 1"
  by (simp add: Clamp_def)

lemma AnimateFocus_timer:
  "FocusTimer (snd (AnimateFocus GetSize H DeltaTime s)) =
     Clamp (fadd32 (FocusTimer s)
              (fmul32 DeltaTime
                 (fmul32 (IconFocusSpeed (Visuals (ButtonBrush s)))
                    (if Button_GetState H = Focused then 1 else - 1)))) 0 1"
  by (simp add: AnimateFocus_def Let_def call_def)

lemma AnimateFocus_brush:
  "ButtonBrush (snd (AnimateFocus GetSize H DeltaTime s)) = ButtonBrush s"
  by (simp add: AnimateFocus_def Let_def call_def)

lemma AnimateFocus_complete:
  "fst (AnimateFocus GetSize H DeltaTime s)
     = (FocusTimer (snd (AnimateFocus GetSize H DeltaTime s)) = 0)"
  by (simp add: AnimateFocus_def Let_def call_def)

lemma AnimateFocus_float32:
  "is_float32 (FocusTimer (snd (AnimateFocus GetSize H DeltaTime s)))"
  by (simp only: AnimateFocus_timer fadd32_def is_float32_Clamp)

lemma frames_unit:
  "0 \<le> FocusTimer s \<and> FocusTimer s \<le> 1 \<Longrightarrow>
   0 \<le> FocusTimer (AnimateFocus_frames GetSize frames s)
   \<and> FocusTimer (AnimateFocus_frames GetSize frames s) \<le> 1"
proof (induction frames arbitrary: s)
  case Nil
  then show ?case by simp
next
  case (Cons f frames)
  obtain dt H where f: "f = (dt, H)" by (cases f)
  have "0 \<le> FocusTimer (snd (AnimateFocus GetSize H dt s))
      \<and> FocusTimer (snd (AnimateFocus GetSize H dt s)) \<le> 1"
    by (simp only: AnimateFocus_timer Clamp_unit)
  from Cons.IH [OF this] f show ?case by simp
qed

lemma unfocused_timer:
  assumes "Button_GetState H \<noteq> Focused"
    and "IconFocusSpeed (Visuals (ButtonBrush s)) = v"
  shows "FocusTimer (snd (AnimateFocus GetSize H dt s))
           = Clamp (round32 (FocusTimer s - focus_decrement v dt)) 0 1"
  using assms by (simp add: AnimateFocus_timer focus_decrement_def fadd32_def)

lemma focus_decrement_nonneg:
  assumes "0 \<le> v" and "0 \<le> dt"
  shows "0 \<le> focus_decrement v dt"
proof -
  from assms(1) have "fmul32 v (- 1) \<le> 0"
    unfolding fmul32_def by (intro round32_nonpos) simp
  with assms(2) have "dt * fmul32 v (- 1) \<le> 0" by (simp add: mult_nonneg_nonpos)
  then have "fmul32 dt (fmul32 v (- 1)) \<le> 0"
    unfolding fmul32_def [of dt] by (rule round32_nonpos)
  then show ?thesis by (simp add: focus_decrement_def)
qed

lemma focus_decrement_ge_1:
  assumes "is_float32 v" and "1 \<le> v * dt" and "0 \<le> v"
  shows "1 \<le> focus_decrement v dt"
proof -
  from assms(1) have "fmul32 v (- 1) = - v"
    by (simp add: fmul32_def round32_uminus is_float32_def)
  then have "focus_decrement v dt = - round32 (- (v * dt))"
    by (simp add: focus_decrement_def fmul32_def mult.commute)
  also have "\<dots> = round32 (v * dt)" by (simp add: round32_uminus)
  also have "round32 1 \<le> round32 (v * dt)" using assms(2) by (rule round32_mono)
  finally show ?thesis by (simp add: round32_1) 
qed

lemma unfocused_step_le:
  assumes "0 \<le> d" and "is_float32 t" and "0 \<le> t"
  shows "Clamp (round32 (t - d)) 0 1 \<le> t"
proof -
  from assms(1) have "t - d \<le> t" by simp
  then have "round32 (t - d) \<le> t" using assms(2) by (rule round32_le_float)
  with assms(3) show ?thesis by (auto simp: Clamp_def)
qed

lemma unfocused_step_zero:
  assumes "t \<le> d"
  shows "Clamp (round32 (t - d)) 0 1 = 0"
proof -
  from assms have "round32 (t - d) \<le> 0" by (intro round32_nonpos) simp
  then show ?thesis by (auto simp: Clamp_def)
qed

lemma unfocused_step_progress:
  assumes "1 / 2 ^ 24 \<le> d" and "0 \<le> t" and "t \<le> 1"
  shows "Clamp (round32 (t - d)) 0 1 \<le> max 0 (t - d / 2)"
proof (cases "t \<le> d")
  case True
  then show ?thesis by (simp add: unfocused_step_zero)
next
  case False
  with assms have x: "0 < t - d" "t - d < 1" by simp_all
  then have "\<bar>round32 (t - d) - (t - d)\<bar> \<le> 1 / 2 ^ 25"
    by (intro round32_half_ulp) simp
  moreover have "round32 (t - d) - (t - d) \<le> \<bar>round32 (t - d) - (t - d)\<bar>"
    by (rule abs_ge_self)
  ultimately have "round32 (t - d) \<le> t - d + 1 / 2 ^ 25" by linarith
  also have "\<dots> \<le> t - d / 2" using assms(1) by simp
  finally have le: "round32 (t - d) \<le> t - d / 2" .
  moreover have "t - d / 2 < 1" using assms by simp
  ultimately show ?thesis by (auto simp: Clamp_def max_def)
qed

lemma max_chain:
  fixes a t d D :: real
  assumes "a \<le> max 0 (t - d / 2)" and "0 \<le> D"
  shows "max 0 (a - D / 2) \<le> max 0 (t - (d + D) / 2)"
proof -
  have "a - D / 2 \<le> max 0 (t - d / 2) - D / 2" using assms(1) by simp
  also have "\<dots> \<le> max 0 (t - d / 2 - D / 2)" using assms(2) by (simp add: max_def)
  also have "t - d / 2 - D / 2 = t - (d + D) / 2" by (simp add: add_divide_distrib)
  finally have "a - D / 2 \<le> max 0 (t - (d + D) / 2)" .
  then show ?thesis by simp
qed

lemma unfocused_frames_le:
  assumes v: "0 \<le> v"
  shows "unfocused frames \<Longrightarrow> is_float32 (FocusTimer s) \<Longrightarrow> 0 \<le> FocusTimer s \<Longrightarrow>
    IconFocusSpeed (Visuals (ButtonBrush s)) = v \<Longrightarrow>
    FocusTimer (AnimateFocus_frames GetSize frames s) \<le> FocusTimer s"
proof (induction frames arbitrary: s)
  case Nil
  then show ?case by simp
next
  case (Cons f frames)
  obtain dt H where f: "f = (dt, H)" by (cases f)
  let ?s1 = "snd (AnimateFocus GetSize H dt s)"
  from Cons.prems f have dt: "0 \<le> dt" and st: "Button_GetState H \<noteq> Focused"
    and rest: "unfocused frames"
    by (simp_all add: unfocused_def)
  have t1: "FocusTimer ?s1 = Clamp (round32 (FocusTimer s - focus_decrement v dt)) 0 1"
    using st Cons.prems(4) by (rule unfocused_timer)
  have le1: "FocusTimer ?s1 \<le> FocusTimer s"
    unfolding t1 using focus_decrement_nonneg [OF v dt] Cons.prems(2,3)
    by (rule unfocused_step_le)
  have "FocusTimer (AnimateFocus_frames GetSize frames ?s1) \<le> FocusTimer ?s1"
  proof (rule Cons.IH [OF rest])
    show "is_float32 (FocusTimer ?s1)" by (rule AnimateFocus_float32)
    show "0 \<le> FocusTimer ?s1" by (simp only: AnimateFocus_timer Clamp_unit)
    show "IconFocusSpeed (Visuals (ButtonBrush ?s1)) = v"
      using Cons.prems(4) by (simp add: AnimateFocus_brush)
  qed
  with le1 f show ?case by simp
qed

lemma decrements_nonneg:
  assumes "0 \<le> v" and "unfocused frames"
  shows "0 \<le> decrements v frames"
  unfolding decrements_def
proof (rule sum_list_nonneg)
  fix x assume "x \<in> set (map (\<lambda>(DeltaTime, H). focus_decrement v DeltaTime) frames)"
  then obtain dt H where "(dt, H) \<in> set frames" and x: "x = focus_decrement v dt" by auto
  with assms(2) have "0 \<le> dt" by (auto simp: unfocused_def list_all_iff)
  with assms(1) x show "0 \<le> x" by (simp add: focus_decrement_nonneg)
qed

lemma decrements_pos:
  assumes "steady v frames" and "frames \<noteq> []"
  shows "0 < decrements v frames"
proof -
  from assms(2) obtain f fs where frames: "frames = f # fs" by (cases frames) auto
  obtain dt H where f: "f = (dt, H)" by (cases f)
  from assms(1) frames f have d: "1 / 2 ^ 24 \<le> focus_decrement v dt" and rest: "steady v fs"
    by (simp_all add: steady_def)
  have "0 \<le> decrements v fs"
    unfolding decrements_def
  proof (rule sum_list_nonneg)
    fix x assume "x \<in> set (map (\<lambda>(DeltaTime, H). focus_decrement v DeltaTime) fs)"
    then obtain dt' H' where "(dt', H') \<in> set fs" and x: "x = focus_decrement v dt'" by auto
    with rest have "1 / 2 ^ 24 \<le> focus_decrement v dt'" by (auto simp: steady_def list_all_iff)
    with x show "0 \<le> x" by simp
  qed
  moreover have "decrements v frames = focus_decrement v dt + decrements v fs"
    using frames f by (simp add: decrements_def)
  moreover from d have "0 < focus_decrement v dt" by simp
  ultimately show ?thesis by simp
qed

lemma steady_frames_progress:
  assumes v: "0 \<le> v"
  shows "unfocused frames \<Longrightarrow> steady v frames \<Longrightarrow>
    0 \<le> FocusTimer s \<Longrightarrow> FocusTimer s \<le> 1 \<Longrightarrow>
    IconFocusSpeed (Visuals (ButtonBrush s)) = v \<Longrightarrow>
    FocusTimer (AnimateFocus_frames GetSize frames s)
      \<le> max 0 (FocusTimer s - decrements v frames / 2)"
proof (induction frames arbitrary: s)
  case Nil
  then show ?case by (simp add: decrements_def)
next
  case (Cons f frames)
  obtain dt H where f: "f = (dt, H)" by (cases f)
  let ?s1 = "snd (AnimateFocus GetSize H dt s)"
  let ?d = "focus_decrement v dt"
  from Cons.prems f have st: "Button_GetState H \<noteq> Focused"
    and rest: "unfocused frames" and srest: "steady v frames" and d: "1 / 2 ^ 24 \<le> ?d"
    by (simp_all add: unfocused_def steady_def)
  have t1: "FocusTimer ?s1 = Clamp (round32 (FocusTimer s - ?d)) 0 1"
    using st Cons.prems(5) by (rule unfocused_timer)
  have le1: "FocusTimer ?s1 \<le> max 0 (FocusTimer s - ?d / 2)"
    unfolding t1 using d Cons.prems(3,4) by (rule unfocused_step_progress)
  have b1: "0 \<le> FocusTimer ?s1" "FocusTimer ?s1 \<le> 1"
    by (simp_all only: AnimateFocus_timer Clamp_unit)
  have v1: "IconFocusSpeed (Visuals (ButtonBrush ?s1)) = v"
    using Cons.prems(5) by (simp add: AnimateFocus_brush)
  have D: "0 \<le> decrements v frames" using v rest by (rule decrements_nonneg)
  have "FocusTimer (AnimateFocus_frames GetSize frames ?s1)
          \<le> max 0 (FocusTimer ?s1 - decrements v frames / 2)"
    by (rule Cons.IH [OF rest srest b1 v1])
  also have "\<dots> \<le> max 0 (FocusTimer s - (?d + decrements v frames) / 2)"
    using le1 D by (rule max_chain)
  also have "?d + decrements v frames = decrements v (f # frames)"
    using f by (simp add: decrements_def)
  finally show ?case using f by simp
qed

text \<open>
  \<^bold>\<open>C4\<close>, as the source has it. After every call of \<open>AnimateFocus\<close> the focus timer is
  a float32 in \<open>[0, 1]\<close>, whatever the timer, the speed and \<open>DeltaTime\<close> were, so it stays
  there over every sequence of frames; and \<open>AnimateFocus\<close> reports the animation complete
  exactly when the timer it has just stored equals 0. The decay needs more than the
  claim states. The source multiplies by the brush's \<open>IconFocusSpeed\<close> without checking
  its sign, and it computes in float32, where a small decrement can be rounded away. For
  a positive \<open>IconFocusSpeed\<close>, a float32 timer in \<open>[0, 1]\<close> and unfocused frames with
  non-negative \<open>DeltaTime\<close>: the timer never increases; if every frame's decrement
  (\<open>DeltaTime * IconFocusSpeed\<close> as the frame computes it) is at least \<open>2 ^ -24\<close>, the timer
  after the frames is at most \<open>max 0 (timer - half the sum of the decrements)\<close>, so it
  has decreased after any such frame if it was above 0, and it is exactly 0 once the
  decrements sum to twice its starting value; and one unfocused
  frame whose decrement is at least the timer, as when \<open>IconFocusSpeed * DeltaTime\<close> is
  at least 1 for a float32 speed, leaves it at exactly 0 and reports the animation
  complete.
\<close>

theorem focus_timer_bounds_and_decay:
  "(0 \<le> FocusTimer (snd (AnimateFocus GetSize H DeltaTime s))
      \<and> FocusTimer (snd (AnimateFocus GetSize H DeltaTime s)) \<le> 1
      \<and> is_float32 (FocusTimer (snd (AnimateFocus GetSize H DeltaTime s))))
   \<and> (fst (AnimateFocus GetSize H DeltaTime s)
        \<longleftrightarrow> FocusTimer (snd (AnimateFocus GetSize H DeltaTime s)) = 0)
   \<and> (0 \<le> FocusTimer s \<and> FocusTimer s \<le> 1 \<longrightarrow>
        0 \<le> FocusTimer (AnimateFocus_frames GetSize frames s)
        \<and> FocusTimer (AnimateFocus_frames GetSize frames s) \<le> 1)
   \<and> (0 < IconFocusSpeed (Visuals (ButtonBrush s)) \<and> is_float32 (FocusTimer s)
        \<and> 0 \<le> FocusTimer s \<and> FocusTimer s \<le> 1 \<and> unfocused frames \<longrightarrow>
        FocusTimer (AnimateFocus_frames GetSize frames s) \<le> FocusTimer s
        \<and> (steady (IconFocusSpeed (Visuals (ButtonBrush s))) frames \<longrightarrow>
              FocusTimer (AnimateFocus_frames GetSize frames s)
                \<le> max 0 (FocusTimer s
                           - decrements (IconFocusSpeed (Visuals (ButtonBrush s))) frames / 2)
              \<and> (2 * FocusTimer s
                     \<le> decrements (IconFocusSpeed (Visuals (ButtonBrush s))) frames \<longrightarrow>
                   FocusTimer (AnimateFocus_frames GetSize frames s) = 0)
              \<and> (frames \<noteq> [] \<and> 0 < FocusTimer s \<longrightarrow>
                   FocusTimer (AnimateFocus_frames GetSize frames s) < FocusTimer s)))
   \<and> (Button_GetState H \<noteq> Focused
        \<and> FocusTimer s
             \<le> focus_decrement (IconFocusSpeed (Visuals (ButtonBrush s))) DeltaTime \<longrightarrow>
        FocusTimer (snd (AnimateFocus GetSize H DeltaTime s)) = 0
        \<and> fst (AnimateFocus GetSize H DeltaTime s))
   \<and> (Button_GetState H \<noteq> Focused \<and> FocusTimer s \<le> 1
        \<and> 0 < IconFocusSpeed (Visuals (ButtonBrush s))
        \<and> is_float32 (IconFocusSpeed (Visuals (ButtonBrush s)))
        \<and> 1 \<le> IconFocusSpeed (Visuals (ButtonBrush s)) * DeltaTime \<longrightarrow>
        FocusTimer (snd (AnimateFocus GetSize H DeltaTime s)) = 0)"
proof (intro conjI impI)
  let ?v = "IconFocusSpeed (Visuals (ButtonBrush s))"
  let ?T = "FocusTimer (snd (AnimateFocus GetSize H DeltaTime s))"
  show "0 \<le> ?T" and "?T \<le> 1"
    by (simp_all only: AnimateFocus_timer Clamp_unit)
  show "is_float32 ?T" by (rule AnimateFocus_float32)
  show complete: "fst (AnimateFocus GetSize H DeltaTime s) \<longleftrightarrow> ?T = 0"
    by (rule AnimateFocus_complete)
  {
    assume "0 \<le> FocusTimer s \<and> FocusTimer s \<le> 1"
    then show "0 \<le> FocusTimer (AnimateFocus_frames GetSize frames s)"
      and "FocusTimer (AnimateFocus_frames GetSize frames s) \<le> 1"
      using frames_unit by blast+
  }
  {
    assume h: "0 < ?v \<and> is_float32 (FocusTimer s) \<and> 0 \<le> FocusTimer s \<and> FocusTimer s \<le> 1
      \<and> unfocused frames"
    then have v: "0 \<le> ?v" by simp
    from h show "FocusTimer (AnimateFocus_frames GetSize frames s) \<le> FocusTimer s"
      by (intro unfocused_frames_le [OF v]) simp_all
    {
      assume st: "steady ?v frames"
      with h show bound: "FocusTimer (AnimateFocus_frames GetSize frames s)
          \<le> max 0 (FocusTimer s - decrements ?v frames / 2)"
        by (intro steady_frames_progress [OF v]) simp_all
      {
        assume "2 * FocusTimer s \<le> decrements ?v frames"
        then have "max 0 (FocusTimer s - decrements ?v frames / 2) = 0" by simp
        with bound have "FocusTimer (AnimateFocus_frames GetSize frames s) \<le> 0" by simp
        moreover from h have "0 \<le> FocusTimer (AnimateFocus_frames GetSize frames s)"
          using frames_unit by blast
        ultimately show "FocusTimer (AnimateFocus_frames GetSize frames s) = 0" by simp
      }
      {
        assume ne: "frames \<noteq> [] \<and> 0 < FocusTimer s"
        with st have "0 < decrements ?v frames" by (simp add: decrements_pos)
        with ne have "max 0 (FocusTimer s - decrements ?v frames / 2) < FocusTimer s"
          by (simp add: max_def)
        with bound show "FocusTimer (AnimateFocus_frames GetSize frames s) < FocusTimer s"
          by (rule order.strict_trans1)
      }
    }
  }
  {
    assume h: "Button_GetState H \<noteq> Focused \<and> FocusTimer s \<le> focus_decrement ?v DeltaTime"
    then have "?T = Clamp (round32 (FocusTimer s - focus_decrement ?v DeltaTime)) 0 1"
      by (intro unfocused_timer) simp_all
    with h show zero: "?T = 0" by (simp add: unfocused_step_zero)
    with complete show "fst (AnimateFocus GetSize H DeltaTime s)" by simp
  }
  {
    assume h: "Button_GetState H \<noteq> Focused \<and> FocusTimer s \<le> 1 \<and> 0 < ?v \<and> is_float32 ?v
      \<and> 1 \<le> ?v * DeltaTime"
    then have "1 \<le> focus_decrement ?v DeltaTime"
      by (intro focus_decrement_ge_1) simp_all
    with h have le: "FocusTimer s \<le> focus_decrement ?v DeltaTime" by simp
    from h have "?T = Clamp (round32 (FocusTimer s - focus_decrement ?v DeltaTime)) 0 1"
      by (intro unfocused_timer) simp_all
    with le show "?T = 0" by (simp add: unfocused_step_zero)
  }
qed

text \<open>The timer over unfocused frames, as a fold of the frame's float32 expression over
  the \<open>DeltaTime\<close>s; and that expression at the inputs used below.\<close>

lemma unfocused_frames_fold:
  "unfocused frames \<Longrightarrow> IconFocusSpeed (Visuals (ButtonBrush s)) = v \<Longrightarrow>
   FocusTimer (AnimateFocus_frames GetSize frames s)
     = foldl (\<lambda>t dt. Clamp (fadd32 t (fmul32 dt (fmul32 v (- 1)))) 0 1)
         (FocusTimer s) (map fst frames)"
proof (induction frames arbitrary: s)
  case Nil
  then show ?case by simp
next
  case (Cons f frames)
  obtain dt H where f: "f = (dt, H)" by (cases f)
  let ?s1 = "snd (AnimateFocus GetSize H dt s)"
  from Cons.prems f have st: "Button_GetState H \<noteq> Focused" and rest: "unfocused frames"
    by (simp_all add: unfocused_def)
  have v1: "IconFocusSpeed (Visuals (ButtonBrush ?s1)) = v"
    using Cons.prems(2) by (simp add: AnimateFocus_brush)
  have t1: "FocusTimer ?s1 = Clamp (fadd32 (FocusTimer s) (fmul32 dt (fmul32 v (- 1)))) 0 1"
    using st Cons.prems(2) by (simp add: AnimateFocus_timer)
  show ?case
    using Cons.IH [OF rest v1] f by (simp add: t1)
qed

lemma fifth_steps:
  "Clamp (fadd32 1 (fmul32 1 (fmul32 (13421773 / 67108864) (- 1)))) 0 1
     = 13421773 / 16777216"
  "Clamp (fadd32 (13421773 / 16777216) (fmul32 1 (fmul32 (13421773 / 67108864) (- 1)))) 0 1
     = 10066330 / 16777216"
  "Clamp (fadd32 (10066330 / 16777216) (fmul32 1 (fmul32 (13421773 / 67108864) (- 1)))) 0 1
     = 13421774 / 33554432"
  "Clamp (fadd32 (13421774 / 33554432) (fmul32 1 (fmul32 (13421773 / 67108864) (- 1)))) 0 1
     = 13421775 / 67108864"
  "Clamp (fadd32 (13421775 / 67108864) (fmul32 1 (fmul32 (13421773 / 67108864) (- 1)))) 0 1
     = 1 / 33554432"
  "Clamp (fadd32 (1 / 33554432) (fmul32 1 (fmul32 (13421773 / 67108864) (- 1)))) 0 1 = 0"
  by code_simp+

lemma absorbed_step:
  "Clamp (fadd32 1 (fmul32 (1 / 1073741824) (fmul32 8 (- 1)))) 0 1 = 1"
  by code_simp

lemma reversed_steps:
  "Clamp (fadd32 0 (fmul32 (1 / 2) (fmul32 (- 1) (- 1)))) 0 1 = 1 / 2"
  "Clamp (fadd32 (1 / 2) (fmul32 (1 / 2) (fmul32 (- 1) (- 1)))) 0 1 = 1"
  "Clamp (fadd32 1 (fmul32 1 (fmul32 (- 1) (- 1)))) 0 1 = 1"
  by code_simp+

lemma fifth_decrement: "focus_decrement (13421773 / 67108864) 1 = 13421773 / 67108864"
  by code_simp

lemma float32_constants: "is_float32 8" "is_float32 1"
  by code_simp+

lemma sample_host_unfocused: "Button_GetState sample_host \<noteq> Focused"
  by (simp add: sample_host_def)

lemma fifth_button_fields:
  "IconFocusSpeed (Visuals (ButtonBrush (fifth_button\<lparr>FocusTimer := t\<rparr>)))
     = 13421773 / 67108864"
  "FocusTimer (fifth_button\<lparr>FocusTimer := t\<rparr>) = t"
  by (simp_all add: fifth_button_def sample_button_def sample_brush_def)

lemma sample_button_fields:
  "IconFocusSpeed (Visuals (ButtonBrush (sample_button\<lparr>FocusTimer := t\<rparr>))) = 8"
  "FocusTimer (sample_button\<lparr>FocusTimer := t\<rparr>) = t"
  by (simp_all add: sample_button_def sample_brush_def)

lemma reversed_button_fields:
  "IconFocusSpeed (Visuals (ButtonBrush (reversed_button\<lparr>FocusTimer := t\<rparr>))) = - 1"
  "FocusTimer (reversed_button\<lparr>FocusTimer := t\<rparr>) = t"
  by (simp_all add: reversed_button_def sample_button_def sample_brush_def)

theorem focus_timer_bounds_and_decay_witness:
  "IconFocusSpeed (Visuals (ButtonBrush (fifth_button\<lparr>FocusTimer := 1\<rparr>)))
     = 13421773 / 67108864
   \<and> is_float32 (FocusTimer (fifth_button\<lparr>FocusTimer := 1\<rparr>))
   \<and> unfocused [(1, sample_host), (1, sample_host), (1, sample_host), (1, sample_host),
                 (1, sample_host), (1, sample_host), (1, sample_host), (1, sample_host),
                 (1, sample_host), (1, sample_host)]
   \<and> steady (13421773 / 67108864)
        [(1, sample_host), (1, sample_host), (1, sample_host), (1, sample_host),
         (1, sample_host), (1, sample_host), (1, sample_host), (1, sample_host),
         (1, sample_host), (1, sample_host)]
   \<and> decrements (13421773 / 67108864)
        [(1, sample_host), (1, sample_host), (1, sample_host), (1, sample_host),
         (1, sample_host), (1, sample_host), (1, sample_host), (1, sample_host),
         (1, sample_host), (1, sample_host)] = 67108865 / 33554432
   \<and> FocusTimer (AnimateFocus_frames tenth_of_millimeters
        [(1, sample_host), (1, sample_host), (1, sample_host), (1, sample_host),
         (1, sample_host), (1, sample_host), (1, sample_host), (1, sample_host),
         (1, sample_host), (1, sample_host)]
        (fifth_button\<lparr>FocusTimer := 1\<rparr>)) = 0
   \<and> FocusTimer (AnimateFocus_frames tenth_of_millimeters
        [(1, sample_host), (1, sample_host), (1, sample_host), (1, sample_host),
         (1, sample_host)]
        (fifth_button\<lparr>FocusTimer := 1\<rparr>)) = 1 / 33554432
   \<and> FocusTimer (AnimateFocus_frames tenth_of_millimeters
        [(1, sample_host), (1, sample_host), (1, sample_host), (1, sample_host),
         (1, sample_host), (1, sample_host)]
        (fifth_button\<lparr>FocusTimer := 1\<rparr>)) = 0
   \<and> is_float32 (IconFocusSpeed (Visuals (ButtonBrush (sample_button\<lparr>FocusTimer := 1\<rparr>))))
   \<and> FocusTimer (snd (AnimateFocus tenth_of_millimeters sample_host (1 / 4)
        (sample_button\<lparr>FocusTimer := 1\<rparr>))) = 0
   \<and> fst (AnimateFocus tenth_of_millimeters sample_host (1 / 4)
        (sample_button\<lparr>FocusTimer := 1\<rparr>))"
proof -
  let ?s = "fifth_button\<lparr>FocusTimer := 1\<rparr>"
  let ?q = "sample_button\<lparr>FocusTimer := 1\<rparr>"
  let ?f1 = "(1 :: real, sample_host)"
  let ?f5 = "[?f1, ?f1, ?f1, ?f1, ?f1]"
  let ?f6 = "[?f1, ?f1, ?f1, ?f1, ?f1, ?f1]"
  let ?f10 = "[?f1, ?f1, ?f1, ?f1, ?f1, ?f1, ?f1, ?f1, ?f1, ?f1]"
  note T = focus_timer_bounds_and_decay
  have v: "IconFocusSpeed (Visuals (ButtonBrush ?s)) = 13421773 / 67108864"
    by (rule fifth_button_fields)
  have t: "FocusTimer ?s = 1" by (rule fifth_button_fields)
  have fl: "is_float32 (FocusTimer ?s)" by (simp add: t is_float32_def round32_1)
  have un: "unfocused ?f5" "unfocused ?f6" "unfocused ?f10"
    by (simp_all add: unfocused_def sample_host_unfocused)
  have st: "steady (13421773 / 67108864) ?f10"
    by (simp add: steady_def fifth_decrement)
  have dec: "decrements (13421773 / 67108864) ?f10 = 67108865 / 33554432"
    by (simp add: decrements_def fifth_decrement)
  have five: "FocusTimer (AnimateFocus_frames tenth_of_millimeters ?f5 ?s) = 1 / 33554432"
    unfolding unfocused_frames_fold [OF un(1) v] t
    by (simp only: list.map fst_conv foldl_Cons foldl_Nil fifth_steps)
  have six: "FocusTimer (AnimateFocus_frames tenth_of_millimeters ?f6 ?s) = 0"
    unfolding unfocused_frames_fold [OF un(2) v] t
    by (simp only: list.map fst_conv foldl_Cons foldl_Nil fifth_steps)
  have ten: "FocusTimer (AnimateFocus_frames tenth_of_millimeters ?f10 ?s) = 0"
  proof -
    note D = T [of tenth_of_millimeters sample_host 1 ?s ?f10,
        THEN conjunct2, THEN conjunct2, THEN conjunct2, THEN conjunct1]
    have "0 < IconFocusSpeed (Visuals (ButtonBrush ?s)) \<and> is_float32 (FocusTimer ?s)
        \<and> 0 \<le> FocusTimer ?s \<and> FocusTimer ?s \<le> 1 \<and> unfocused ?f10"
      unfolding v t using un(3) by (simp add: is_float32_def round32_1)
    with D have "steady (IconFocusSpeed (Visuals (ButtonBrush ?s))) ?f10 \<longrightarrow>
        FocusTimer (AnimateFocus_frames tenth_of_millimeters ?f10 ?s)
          \<le> max 0 (FocusTimer ?s
                     - decrements (IconFocusSpeed (Visuals (ButtonBrush ?s))) ?f10 / 2)
        \<and> (2 * FocusTimer ?s
               \<le> decrements (IconFocusSpeed (Visuals (ButtonBrush ?s))) ?f10 \<longrightarrow>
             FocusTimer (AnimateFocus_frames tenth_of_millimeters ?f10 ?s) = 0)
        \<and> (?f10 \<noteq> [] \<and> 0 < FocusTimer ?s \<longrightarrow>
             FocusTimer (AnimateFocus_frames tenth_of_millimeters ?f10 ?s) < FocusTimer ?s)"
      by blast
    moreover have "steady (IconFocusSpeed (Visuals (ButtonBrush ?s))) ?f10"
      by (simp only: v st)
    moreover have "2 * FocusTimer ?s
        \<le> decrements (IconFocusSpeed (Visuals (ButtonBrush ?s))) ?f10"
      unfolding v t dec by simp
    ultimately show ?thesis by blast
  qed
  have q: "IconFocusSpeed (Visuals (ButtonBrush ?q)) = 8" "FocusTimer ?q = 1"
    by (rule sample_button_fields)+
  have qf: "is_float32 (IconFocusSpeed (Visuals (ButtonBrush ?q)))"
    by (simp only: q float32_constants)
  have one: "FocusTimer (snd (AnimateFocus tenth_of_millimeters sample_host (1 / 4) ?q)) = 0"
  proof -
    note F = T [of tenth_of_millimeters sample_host "1 / 4" ?q "[]",
        THEN conjunct2, THEN conjunct2, THEN conjunct2, THEN conjunct2, THEN conjunct2]
    have "Button_GetState sample_host \<noteq> Focused \<and> FocusTimer ?q \<le> 1
        \<and> 0 < IconFocusSpeed (Visuals (ButtonBrush ?q))
        \<and> is_float32 (IconFocusSpeed (Visuals (ButtonBrush ?q)))
        \<and> 1 \<le> IconFocusSpeed (Visuals (ButtonBrush ?q)) * (1 / 4)"
      using qf sample_host_unfocused unfolding q by simp
    with F show ?thesis by blast
  qed
  then have done1: "fst (AnimateFocus tenth_of_millimeters sample_host (1 / 4) ?q)"
    by (simp add: AnimateFocus_complete)
  from v fl un(3) st dec ten five six qf one done1 show ?thesis by blast
qed

text \<open>
  The claim as stated fails. For a brush whose \<open>IconFocusSpeed\<close> is \<open>-1\<close> and the timer at
  0, unfocused frames with positive \<open>DeltaTime\<close> raise the timer to 1, where it stays, and
  \<open>AnimateFocus\<close> does not report the animation complete. For a brush whose
  \<open>IconFocusSpeed\<close> is 8 and the timer at 1, unfocused frames with the positive
  \<open>DeltaTime = 2 ^ -30\<close> leave the timer at 1: the sum \<open>1 - 2 ^ -27\<close> rounds to 1 in float32,
  so the timer does not decrease and does not reach 0 however many such frames pass.
\<close>

theorem focus_timer_counterexample:
  "FocusTimer (reversed_button\<lparr>FocusTimer := 0\<rparr>) = 0
   \<and> unfocused [(1 / 2, sample_host), (1 / 2, sample_host), (1, sample_host)]
   \<and> FocusTimer (AnimateFocus_frames tenth_of_millimeters [(1 / 2, sample_host)]
        (reversed_button\<lparr>FocusTimer := 0\<rparr>)) = 1 / 2
   \<and> FocusTimer (AnimateFocus_frames tenth_of_millimeters
        [(1 / 2, sample_host), (1 / 2, sample_host), (1, sample_host)]
        (reversed_button\<lparr>FocusTimer := 0\<rparr>)) = 1
   \<and> \<not> fst (AnimateFocus tenth_of_millimeters sample_host 1
        (reversed_button\<lparr>FocusTimer := 1\<rparr>))
   \<and> IconFocusSpeed (Visuals (ButtonBrush (sample_button\<lparr>FocusTimer := 1\<rparr>))) = 8
   \<and> unfocused [(1 / 1073741824, sample_host), (1 / 1073741824, sample_host),
                 (1 / 1073741824, sample_host)]
   \<and> FocusTimer (AnimateFocus_frames tenth_of_millimeters
        [(1 / 1073741824, sample_host), (1 / 1073741824, sample_host),
         (1 / 1073741824, sample_host)]
        (sample_button\<lparr>FocusTimer := 1\<rparr>)) = 1
   \<and> \<not> fst (AnimateFocus tenth_of_millimeters sample_host (1 / 1073741824)
        (sample_button\<lparr>FocusTimer := 1\<rparr>))"
proof -
  let ?r = "reversed_button\<lparr>FocusTimer := 0\<rparr>"
  let ?r1 = "reversed_button\<lparr>FocusTimer := 1\<rparr>"
  let ?q = "sample_button\<lparr>FocusTimer := 1\<rparr>"
  let ?h = "(1 / 2 :: real, sample_host)"
  let ?o = "(1 :: real, sample_host)"
  let ?e = "(1 / 1073741824 :: real, sample_host)"
  have rv: "IconFocusSpeed (Visuals (ButtonBrush ?r)) = - 1" and rt: "FocusTimer ?r = 0"
    by (rule reversed_button_fields)+
  have r1v: "IconFocusSpeed (Visuals (ButtonBrush ?r1)) = - 1" and r1t: "FocusTimer ?r1 = 1"
    by (rule reversed_button_fields)+
  have qv: "IconFocusSpeed (Visuals (ButtonBrush ?q)) = 8" and qt: "FocusTimer ?q = 1"
    by (rule sample_button_fields)+
  have un: "unfocused [?h]" "unfocused [?h, ?h, ?o]" "unfocused [?e, ?e, ?e]"
    by (simp_all add: unfocused_def sample_host_unfocused)
  have a: "FocusTimer (AnimateFocus_frames tenth_of_millimeters [?h] ?r) = 1 / 2"
    unfolding unfocused_frames_fold [OF un(1) rv] rt
    by (simp only: list.map fst_conv foldl_Cons foldl_Nil reversed_steps)
  have b: "FocusTimer (AnimateFocus_frames tenth_of_millimeters [?h, ?h, ?o] ?r) = 1"
    unfolding unfocused_frames_fold [OF un(2) rv] rt
    by (simp only: list.map fst_conv foldl_Cons foldl_Nil reversed_steps)
  have "FocusTimer (snd (AnimateFocus tenth_of_millimeters sample_host 1 ?r1)) = 1"
    unfolding AnimateFocus_timer r1v r1t
    by (simp only: sample_host_unfocused if_False reversed_steps)
  then have c: "\<not> fst (AnimateFocus tenth_of_millimeters sample_host 1 ?r1)"
    by (simp add: AnimateFocus_complete)
  have d: "FocusTimer (AnimateFocus_frames tenth_of_millimeters [?e, ?e, ?e] ?q) = 1"
    unfolding unfocused_frames_fold [OF un(3) qv] qt
    by (simp only: list.map fst_conv foldl_Cons foldl_Nil absorbed_step)
  have "FocusTimer (snd (AnimateFocus tenth_of_millimeters sample_host (1 / 1073741824) ?q))
      = 1"
    unfolding AnimateFocus_timer qv qt
    by (simp only: sample_host_unfocused if_False absorbed_step)
  then have e: "\<not> fst (AnimateFocus tenth_of_millimeters sample_host (1 / 1073741824) ?q)"
    by (simp add: AnimateFocus_complete)
  from rt un(2,3) a b c qv d e show ?thesis by blast
qed

end
